theory Spec2Isabelle
  imports Main "HOL-Library.Word"
begin

section \<open>Strings, bytes and constants of \<^verbatim>\<open>src/index.js\<close>\<close>

text \<open>
  A JavaScript string is a sequence of UTF-16 code units; \<^verbatim>\<open>trim\<close>, \<^verbatim>\<open>slice\<close>,
  \<^verbatim>\<open>length\<close> and a regular expression without the \<^verbatim>\<open>u\<close> flag all work on code
  units. An \<^verbatim>\<open>ArrayBuffer\<close> is a sequence of bytes. \<open>js\<close> embeds an ASCII literal.
\<close>

type_synonym jschar = "16 word"
type_synonym jsstring = "jschar list"
type_synonym bytes = "8 word list"

definition js :: "string \<Rightarrow> jsstring" where
  "js s = map of_char s"

definition MAX_IMAGE_BYTES :: nat where
  "MAX_IMAGE_BYTES = 10 * 1024 * 1024"

definition RATE_LIMIT_MAX :: nat where
  "RATE_LIMIT_MAX = 10"

definition RATE_LIMIT_TTL :: nat where
  "RATE_LIMIT_TTL = 75"

definition AI_DEDUPE_TTL :: nat where
  "AI_DEDUPE_TTL = 300"

definition ALT_TEXT_MAX_LEN :: nat where
  "ALT_TEXT_MAX_LEN = 500"

definition ALLOWED_TYPES :: "jsstring list" where
  "ALLOWED_TYPES =
     [js ''image/jpeg'', js ''image/png'', js ''image/gif'', js ''image/webp'', js ''image/avif'']"

section \<open>Alt-text sanitisation\<close>

text \<open>
  \<^verbatim>\<open>String.prototype.trim\<close> removes the code units of the ECMAScript productions
  WhiteSpace and LineTerminator from both ends.
\<close>

definition isTrimChar :: "jschar \<Rightarrow> bool" where
  "isTrimChar c =
     (c \<in> {0x09, 0x0A, 0x0B, 0x0C, 0x0D, 0x20, 0xA0, 0x1680, 0x2028, 0x2029, 0x202F,
            0x205F, 0x3000, 0xFEFF}
      \<or> (0x2000 \<le> c \<and> c \<le> 0x200A))"

definition trim :: "jsstring \<Rightarrow> jsstring" where
  "trim s = rev (dropWhile isTrimChar (rev (dropWhile isTrimChar s)))"

text \<open>
  \<^verbatim>\<open>.replace(/<[^>]*>/g, '')\<close>: scanning from the left, a \<^verbatim>\<open><\<close> that has a
  \<^verbatim>\<open>>\<close> somewhere after it starts a match that runs to the first such \<^verbatim>\<open>>\<close>
  (the class \<^verbatim>\<open>[^>]\<close> also matches \<^verbatim>\<open><\<close> and line terminators); the match is
  deleted and the scan goes on behind it. Any other code unit is kept.
\<close>

function stripTags :: "jsstring \<Rightarrow> jsstring" where
  "stripTags [] = []"
| "stripTags (c # cs) =
     (if c = 0x3C \<and> 0x3E \<in> set cs
      then stripTags (tl (dropWhile (\<lambda>d. d \<noteq> 0x3E) cs))
      else c # stripTags cs)"
  by pat_completeness auto
termination
proof (relation "measure length")
  show "wf (measure length)" by simp
next
  fix c :: jschar and cs :: jsstring
  have "length (dropWhile (\<lambda>d. d \<noteq> 0x3E) cs) \<le> length cs"
    by (rule length_dropWhile_le)
  then show "(tl (dropWhile (\<lambda>d. d \<noteq> 0x3E) cs), c # cs) \<in> measure length"
    by simp
next
  fix c :: jschar and cs :: jsstring
  show "(cs, c # cs) \<in> measure length" by simp
qed

text \<open>\<^verbatim>\<open>HTML_ESCAPE_MAP\<close> and \<^verbatim>\<open>.replace(/[&<>"'`]/g, c => HTML_ESCAPE_MAP[c])\<close>.\<close>

definition HTML_ESCAPE_MAP :: "jschar \<Rightarrow> jsstring option" where
  "HTML_ESCAPE_MAP c =
     (if c = 0x26 then Some (js ''&amp;'')
      else if c = 0x3C then Some (js ''&lt;'')
      else if c = 0x3E then Some (js ''&gt;'')
      else if c = 0x22 then Some (js ''&quot;'')
      else if c = 0x27 then Some (js ''&#39;'')
      else if c = 0x60 then Some (js ''&#96;'')
      else None)"

definition escapeHtml :: "jsstring \<Rightarrow> jsstring" where
  "escapeHtml s = concat (map (\<lambda>c. case HTML_ESCAPE_MAP c of Some e \<Rightarrow> e | None \<Rightarrow> [c]) s)"

text \<open>
  \<^verbatim>\<open>sanitiseAltText(raw)\<close>. The argument is a string at its only call site, where
  \<^verbatim>\<open>String(raw ?? '')\<close> is the identity.
\<close>

definition sanitiseAltText :: "jsstring \<Rightarrow> jsstring" where
  "sanitiseAltText raw = take ALT_TEXT_MAX_LEN (escapeHtml (stripTags (trim raw)))"

section \<open>Responses and requests\<close>

definition EM_DASH :: jschar where
  "EM_DASH = 0x2014"

definition DQUOTE :: jschar where
  "DQUOTE = 0x22"

text \<open>
  The JSON bodies the worker produces, by shape. The messages that interpolate a value
  carry the value instead of the formatted text.
\<close>

datatype error_msg =
    Msg jsstring
  | FetchFailed jsstring
  | SourceStatus nat
  | UnsupportedType jsstring
  | TooLarge nat

record image_row =
  row_id :: jsstring
  source_url :: "jsstring option"
  alt_text :: "jsstring option"
  created_at :: nat
  updated_at :: "nat option"

datatype body =
    NoBody
  | ImageBytes bytes
  | PlainText string
  | Html
  | ErrorJson error_msg
  | UploadJson jsstring jsstring jsstring
  | AuditJson nat nat nat "image_row list"
  | HealthJson nat
  | RoutesJson

record response =
  status :: nat
  headers :: "(string \<times> jsstring) list"
  body :: body

text \<open>
  The entry that \<^verbatim>\<open>Headers.set\<close> replaces or appends, and \<^verbatim>\<open>Headers.get\<close>; the code
  spells every header name one way.
\<close>

fun setHeader :: "string \<Rightarrow> jsstring \<Rightarrow> (string \<times> jsstring) list \<Rightarrow> (string \<times> jsstring) list" where
  "setHeader k v [] = [(k, v)]"
| "setHeader k v ((k', v') # hs) =
     (if k' = k then (k, v) # hs else (k', v') # setHeader k v hs)"

definition getHeader :: "string \<Rightarrow> response \<Rightarrow> jsstring option" where
  "getHeader k r = map_of (headers r) k"

text \<open>
  What the platform's \<^verbatim>\<open>Headers\<close> does to a value handed to \<^verbatim>\<open>new Headers(init)\<close> or
  to \<^verbatim>\<open>Headers.set\<close>: leading and trailing HTTP white space (tab, LF, CR, space) is
  removed, and a value that then still holds NUL, LF or CR is refused with a
  \<^verbatim>\<open>TypeError\<close> (\<open>None\<close>). Other code units pass, among them the dash of the
  placeholder of \<^verbatim>\<open>handleImage\<close>. The header values that the source writes as
  literals are unchanged by this, and \<open>setHeader\<close> is used for them.
\<close>

definition isHttpWhitespace :: "jschar \<Rightarrow> bool" where
  "isHttpWhitespace c = (c = 0x09 \<or> c = 0x0A \<or> c = 0x0D \<or> c = 0x20)"

definition stripHttpWhitespace :: "jsstring \<Rightarrow> jsstring" where
  "stripHttpWhitespace v =
     rev (dropWhile isHttpWhitespace (rev (dropWhile isHttpWhitespace v)))"

definition headerValue :: "jsstring \<Rightarrow> jsstring option" where
  "headerValue v =
     (let n = stripHttpWhitespace v
      in if list_ex (\<lambda>c. c = 0x00 \<or> c = 0x0A \<or> c = 0x0D) n then None else Some n)"

fun newHeaders :: "(string \<times> jsstring) list \<Rightarrow> (string \<times> jsstring) list option" where
  "newHeaders [] = Some []"
| "newHeaders ((k, v) # init) =
     (case headerValue v of
        None \<Rightarrow> None
      | Some n \<Rightarrow> (case newHeaders init of None \<Rightarrow> None | Some hs \<Rightarrow> Some ((k, n) # hs)))"

definition headersSet ::
  "string \<Rightarrow> jsstring \<Rightarrow> (string \<times> jsstring) list \<Rightarrow> (string \<times> jsstring) list option" where
  "headersSet k v hs = (case headerValue v of None \<Rightarrow> None | Some n \<Rightarrow> Some (setHeader k n hs))"

definition CORS_HEADERS :: "(string \<times> jsstring) list" where
  "CORS_HEADERS =
     [(''Access-Control-Allow-Origin'', js ''*''),
      (''Access-Control-Allow-Methods'', js ''GET, POST, OPTIONS''),
      (''Access-Control-Allow-Headers'', js ''Authorization, Content-Type''),
      (''Access-Control-Expose-Headers'', js ''X-Alt-Text, X-Image-Id, CF-Cache-Status, Cache-Control'')]"

definition withCors :: "response \<Rightarrow> response" where
  "withCors r = r\<lparr>headers := fold (\<lambda>(k, v). setHeader k v) CORS_HEADERS (headers r)\<rparr>"

definition jsonResponse :: "nat \<Rightarrow> body \<Rightarrow> response" where
  "jsonResponse st b =
     \<lparr>status = st, headers = [(''Content-Type'', js ''application/json'')], body = b\<rparr>"

definition jsonError :: "error_msg \<Rightarrow> nat \<Rightarrow> response" where
  "jsonError message st = jsonResponse st (ErrorJson message)"

definition methodNotAllowed :: "string \<Rightarrow> response" where
  "methodNotAllowed allow =
     \<lparr>status = 405, headers = [(''Allow'', js allow)], body = PlainText ''Method Not Allowed''\<rparr>"

text \<open>
  A request, as far as the worker reads it. \<open>pathname\<close> is
  \<^verbatim>\<open>new URL(request.url).pathname\<close>; \<open>json_url\<close> is \<open>None\<close> when
  \<^verbatim>\<open>request.json()\<close> throws and otherwise \<^verbatim>\<open>String(body?.url ?? '')\<close>; the query
  fields are \<^verbatim>\<open>searchParams.get\<close> of \<^verbatim>\<open>id\<close>, and of \<^verbatim>\<open>limit\<close> and
  \<^verbatim>\<open>page\<close> after \<^verbatim>\<open>Number\<close>, for values that are natural numbers.
\<close>

record request =
  req_method :: string
  url :: jsstring
  pathname :: jsstring
  cf_connecting_ip :: "jsstring option"
  authorization :: "jsstring option"
  json_url :: "jsstring option"
  query_id :: "jsstring option"
  query_limit :: "nat option"
  query_page :: "nat option"

section \<open>Bindings, environment outcomes and stores\<close>

text \<open>
  \<open>config\<close> is what stays fixed over a deployment: the secret, which KV namespaces are
  bound, and the platform's URL parser (\<^verbatim>\<open>new URL(s).hostname\<close>, \<open>None\<close> when the
  constructor throws).
\<close>

record config =
  ADMIN_TOKEN :: "jsstring option"
  RATE_LIMIT_bound :: bool
  AI_QUOTA_bound :: bool
  URL_hostname :: "jsstring \<Rightarrow> jsstring option"

text \<open>
  \<open>outcomes\<close> gives the outcome of every call that leaves the worker during one step:
  the clock (milliseconds), whether a store call throws, what the remote fetch and the
  model return, and the UUID drawn.
\<close>

datatype fetch_outcome =
    FetchThrows jsstring
  | Fetched nat "jsstring option" bytes

datatype ai_outcome =
    AiThrows
  | AiResult "jsstring option"

record outcomes =
  now :: nat
  rl_get_ok :: bool
  rl_put_ok :: bool
  lock_get_ok :: bool
  lock_put_ok :: bool
  d1_select_ok :: bool
  d1_insert_ok :: bool
  d1_upsert_ok :: bool
  r2_get_ok :: bool
  r2_put_ok :: bool
  r2_delete_ok :: bool
  fetch_result :: fetch_outcome
  ai_result :: ai_outcome
  randomUUID :: jsstring

text \<open>A KV namespace: each key holds a value and the time (ms) at which it expires.\<close>

type_synonym ('k, 'v) kv = "'k \<rightharpoonup> ('v \<times> nat)"

definition kvGet :: "('k, 'v) kv \<Rightarrow> 'k \<Rightarrow> nat \<Rightarrow> 'v option" where
  "kvGet kv k t = (case kv k of None \<Rightarrow> None | Some (v, expires) \<Rightarrow> if t < expires then Some v else None)"

definition kvPut :: "('k, 'v) kv \<Rightarrow> 'k \<Rightarrow> 'v \<Rightarrow> nat \<Rightarrow> nat \<Rightarrow> ('k, 'v) kv" where
  "kvPut kv k v t expirationTtl = kv(k \<mapsto> (v, t + expirationTtl * 1000))"

record r2object =
  data :: bytes
  contentType :: "jsstring option"
  sourceUrl :: jsstring
  uploadedAt :: nat

text \<open>The calls that leave the worker and write or cost something, in the order made.\<close>

datatype event =
    Fetch jsstring
  | R2Put jsstring
  | R2Delete jsstring
  | D1Insert jsstring jsstring
  | D1Upsert jsstring jsstring
  | AiRun jsstring bytes

text \<open>
  The stores the handlers use: the D1 table \<^verbatim>\<open>images\<close>, the R2 bucket, the KV namespace
  \<^verbatim>\<open>AI_QUOTA\<close> (key \<^verbatim>\<open>ai:<imageId>\<close>, held under the image id), and the edge cache keyed
  by request URL.
\<close>

record store =
  DB :: "image_row list"
  IMAGES :: "jsstring \<rightharpoonup> r2object"
  AI_QUOTA :: "(jsstring, jsstring) kv"
  cache :: "jsstring \<rightharpoonup> response"
  events :: "event list"

section \<open>The D1 statements\<close>

definition selectById :: "image_row list \<Rightarrow> jsstring \<Rightarrow> image_row option" where
  "selectById db i = find (\<lambda>r. row_id r = i) db"

definition selectBySourceUrl :: "image_row list \<Rightarrow> jsstring \<Rightarrow> image_row option" where
  "selectBySourceUrl db u = find (\<lambda>r. source_url r = Some u) db"

text \<open>
  \<^verbatim>\<open>INSERT INTO images (id, source_url, created_at)\<close>: refused by the primary key or by
  the unique index on \<^verbatim>\<open>source_url\<close>.
\<close>

definition insertImage :: "image_row list \<Rightarrow> jsstring \<Rightarrow> jsstring \<Rightarrow> nat \<Rightarrow> image_row list option" where
  "insertImage db i u t =
     (if selectById db i \<noteq> None \<or> selectBySourceUrl db u \<noteq> None then None
      else Some (db @ [\<lparr>row_id = i, source_url = Some u, alt_text = None,
                        created_at = t, updated_at = None\<rparr>]))"

text \<open>\<^verbatim>\<open>INSERT INTO images (id, alt_text, updated_at) ... ON CONFLICT(id) DO UPDATE\<close>.\<close>

definition upsertAltText :: "image_row list \<Rightarrow> jsstring \<Rightarrow> jsstring \<Rightarrow> nat \<Rightarrow> image_row list" where
  "upsertAltText db i a t =
     (if selectById db i = None
      then db @ [\<lparr>row_id = i, source_url = None, alt_text = Some a,
                  created_at = t, updated_at = Some t\<rparr>]
      else map (\<lambda>r. if row_id r = i then r\<lparr>alt_text := Some a, updated_at := Some t\<rparr> else r) db)"

section \<open>Image serve\<close>

definition PENDING_ALT_TEXT :: jsstring where
  "PENDING_ALT_TEXT = js ''Pending '' @ [EM_DASH] @ js '' description being generated''"

text \<open>
  The two \<^verbatim>\<open>Cache-Control\<close> templates with \<^verbatim>\<open>CACHE_MAX_AGE = 3600\<close> and
  \<^verbatim>\<open>CACHE_PENDING_AGE = 60\<close> filled in.
\<close>

definition CACHE_CONTROL_READY :: jsstring where
  "CACHE_CONTROL_READY = js ''public, max-age=3600''"

definition CACHE_CONTROL_PENDING :: jsstring where
  "CACHE_CONTROL_PENDING = js ''public, max-age=60, stale-while-revalidate=300''"

text \<open>
  Work handed to \<^verbatim>\<open>ctx.waitUntil\<close>; it runs after the response is returned. A
  \<^verbatim>\<open>generateAndCache\<close> call is in one of three places: not yet past the dedupe lock
  (\<open>Generate\<close>), waiting for \<^verbatim>\<open>env.AI.run\<close> (\<open>Inferring\<close>), or back from
  \<^verbatim>\<open>generateAltTextOnce\<close> and about to rebuild the cache entry (\<open>Rebuild\<close>).
\<close>

datatype task =
    CachePut jsstring response
  | Generate jsstring bytes jsstring response
  | Inferring jsstring bytes jsstring response
  | Rebuild jsstring jsstring response

text \<open>
  The response that \<^verbatim>\<open>handleImage\<close> builds; \<open>None\<close> when \<^verbatim>\<open>new Headers\<close>
  throws.
\<close>

definition imageResponse :: "jsstring \<Rightarrow> jsstring \<Rightarrow> jsstring \<Rightarrow> bytes \<Rightarrow> response option" where
  "imageResponse contentType' altText imageId imageBytes =
     (case newHeaders
             [(''Content-Type'', contentType'),
              (''X-Alt-Text'', if altText \<noteq> [] then altText else PENDING_ALT_TEXT),
              (''Cache-Control'',
                 if altText \<noteq> [] then CACHE_CONTROL_READY else CACHE_CONTROL_PENDING),
              (''X-Image-Id'', imageId),
              (''Access-Control-Allow-Origin'', js ''*''),
              (''Access-Control-Expose-Headers'',
                 js ''X-Alt-Text, X-Image-Id, CF-Cache-Status, Cache-Control'')] of
        None \<Rightarrow> None
      | Some headers' \<Rightarrow>
          Some \<lparr>status = 200, headers = headers', body = ImageBytes imageBytes\<rparr>)"

text \<open>
  The value of \<^verbatim>\<open>altText\<close> in \<^verbatim>\<open>handleImage\<close>: the empty string when the D1
  read is rejected, when there is no row, and when \<^verbatim>\<open>alt_text\<close> is null.
\<close>

definition storedAltText :: "outcomes \<Rightarrow> store \<Rightarrow> jsstring \<Rightarrow> jsstring" where
  "storedAltText ora s imageId =
     (if d1_select_ok ora
      then (case selectById (DB s) imageId of
              None \<Rightarrow> []
            | Some row \<Rightarrow> (case alt_text row of None \<Rightarrow> [] | Some a \<Rightarrow> a))
      else [])"

text \<open>
  \<^verbatim>\<open>handleImage\<close> reads only; what it writes, it hands to \<^verbatim>\<open>ctx.waitUntil\<close>. It
  returns the response and that task, or throws (\<open>None\<close>) where \<^verbatim>\<open>new Headers\<close>
  does, before anything is handed over.
\<close>

definition handleImage ::
  "outcomes \<Rightarrow> jsstring \<Rightarrow> request \<Rightarrow> store \<Rightarrow> (response \<times> task option) option" where
  "handleImage ora imageId req s =
     (if req_method req \<noteq> ''GET'' then Some (methodNotAllowed ''GET'', None)
      else case cache s (url req) of
        Some cached \<Rightarrow> Some (cached, None)
      | None \<Rightarrow>
          if \<not> r2_get_ok ora then Some (jsonError (Msg (js ''Storage unavailable'')) 503, None)
          else case IMAGES s imageId of
            None \<Rightarrow> Some (jsonError (Msg (js ''Image not found'')) 404, None)
          | Some obj \<Rightarrow>
              let altText = storedAltText ora s imageId;
                  imageBytes = data obj;
                  contentType' =
                    (case contentType obj of
                       None \<Rightarrow> js ''application/octet-stream'' | Some c \<Rightarrow> c)
              in case imageResponse contentType' altText imageId imageBytes of
                   None \<Rightarrow> None
                 | Some response \<Rightarrow>
                     if altText \<noteq> []
                     then Some (response, Some (CachePut (url req) response))
                     else Some (response, Some (Generate imageId imageBytes (url req) response)))"

section \<open>Background: AI generation, then cache rebuild\<close>

text \<open>
  The first \<^verbatim>\<open>try\<close> block of \<^verbatim>\<open>generateAltTextOnce\<close>: \<open>False\<close> when the lock is
  held and the function returns, \<open>True\<close> when it goes on to the model, with or without
  having written the lock.
\<close>

definition acquireLock :: "config \<Rightarrow> outcomes \<Rightarrow> jsstring \<Rightarrow> store \<Rightarrow> bool \<times> store" where
  "acquireLock cfg ora imageId s =
     (if AI_QUOTA_bound cfg then
        (if \<not> lock_get_ok ora then (True, s)
         else case kvGet (AI_QUOTA s) imageId (now ora) of
           Some locked \<Rightarrow>
             if locked \<noteq> [] then (False, s)
             else if lock_put_ok ora
               then (True, s\<lparr>AI_QUOTA := kvPut (AI_QUOTA s) imageId (js ''1'') (now ora) AI_DEDUPE_TTL\<rparr>)
               else (True, s)
         | None \<Rightarrow>
             if lock_put_ok ora
             then (True, s\<lparr>AI_QUOTA := kvPut (AI_QUOTA s) imageId (js ''1'') (now ora) AI_DEDUPE_TTL\<rparr>)
             else (True, s))
      else (True, s))"

text \<open>The second \<^verbatim>\<open>try\<close> block: the call of the model, and what follows its return.\<close>

definition callModel :: "jsstring \<Rightarrow> bytes \<Rightarrow> store \<Rightarrow> store" where
  "callModel imageId imageBytes s = s\<lparr>events := events s @ [AiRun imageId imageBytes]\<rparr>"

definition storeAltText :: "outcomes \<Rightarrow> jsstring \<Rightarrow> store \<Rightarrow> store" where
  "storeAltText ora imageId s =
     (case ai_result ora of
        AiThrows \<Rightarrow> s
      | AiResult r \<Rightarrow>
          let altText = sanitiseAltText (trim (case r of None \<Rightarrow> [] | Some t \<Rightarrow> t))
          in if altText = [] then s
             else let s1 = s\<lparr>events := events s @ [D1Upsert imageId altText]\<rparr>
                  in if d1_upsert_ok ora
                     then s1\<lparr>DB := upsertAltText (DB s1) imageId altText (now ora)\<rparr>
                     else s1)"

definition generateAltTextOnce :: "config \<Rightarrow> outcomes \<Rightarrow> jsstring \<Rightarrow> bytes \<Rightarrow> store \<Rightarrow> store" where
  "generateAltTextOnce cfg ora imageId imageBytes s =
     (case acquireLock cfg ora imageId s of
        (False, s1) \<Rightarrow> s1
      | (True, s1) \<Rightarrow> storeAltText ora imageId (callModel imageId imageBytes s1))"

text \<open>
  \<^verbatim>\<open>generateAndCache\<close> behind its \<^verbatim>\<open>await generateAltTextOnce(...)\<close>. \<open>enriched\<close> is
  the response built inside the \<^verbatim>\<open>try\<close>, \<open>None\<close> when
  \<^verbatim>\<open>enrichedHeaders.set('X-Alt-Text', row.alt_text)\<close> throws; the \<^verbatim>\<open>catch\<close> then leads
  to the \<^verbatim>\<open>cache.put\<close> of the response as it was handed in, as a rejected D1 read
  does.
\<close>

definition enriched :: "response \<Rightarrow> jsstring \<Rightarrow> response option" where
  "enriched response a =
     (case headersSet ''X-Alt-Text'' a (headers response) of
        None \<Rightarrow> None
      | Some enrichedHeaders \<Rightarrow>
          Some \<lparr>status = 200,
                headers = setHeader ''Cache-Control'' CACHE_CONTROL_READY enrichedHeaders,
                body = body response\<rparr>)"

definition rebuildCache :: "outcomes \<Rightarrow> jsstring \<Rightarrow> jsstring \<Rightarrow> response \<Rightarrow> store \<Rightarrow> store" where
  "rebuildCache ora imageId cacheKey response s =
     (case (if d1_select_ok ora then selectById (DB s) imageId else None) of
        None \<Rightarrow> s\<lparr>cache := (cache s)(cacheKey \<mapsto> response)\<rparr>
      | Some row \<Rightarrow>
          (case alt_text row of
             None \<Rightarrow> s\<lparr>cache := (cache s)(cacheKey \<mapsto> response)\<rparr>
           | Some a \<Rightarrow>
               if a \<noteq> []
               then (case enriched response a of
                       None \<Rightarrow> s\<lparr>cache := (cache s)(cacheKey \<mapsto> response)\<rparr>
                     | Some e \<Rightarrow> s\<lparr>cache := (cache s)(cacheKey \<mapsto> e)\<rparr>)
               else s\<lparr>cache := (cache s)(cacheKey \<mapsto> response)\<rparr>))"

definition generateAndCache ::
  "config \<Rightarrow> outcomes \<Rightarrow> jsstring \<Rightarrow> bytes \<Rightarrow> jsstring \<Rightarrow> response \<Rightarrow> store \<Rightarrow> store" where
  "generateAndCache cfg ora imageId imageBytes cacheKey response s =
     rebuildCache ora imageId cacheKey response (generateAltTextOnce cfg ora imageId imageBytes s)"

text \<open>
  One step of a task; \<open>None\<close> when the task is finished. The steps are coarser than
  the awaits of the source: the read and the write of the lock and the start of the model
  call are one step, the answer of the model and the upsert are the next, and the re-read
  of the row and the cache write are the last.
\<close>

fun task_step :: "config \<Rightarrow> outcomes \<Rightarrow> task \<Rightarrow> store \<Rightarrow> task option \<times> store" where
  "task_step cfg ora (CachePut cacheKey response) s =
     (None, s\<lparr>cache := (cache s)(cacheKey \<mapsto> response)\<rparr>)"
| "task_step cfg ora (Generate imageId imageBytes cacheKey response) s =
     (case acquireLock cfg ora imageId s of
        (False, s1) \<Rightarrow> (Some (Rebuild imageId cacheKey response), s1)
      | (True, s1) \<Rightarrow>
          (Some (Inferring imageId imageBytes cacheKey response), callModel imageId imageBytes s1))"
| "task_step cfg ora (Inferring imageId imageBytes cacheKey response) s =
     (Some (Rebuild imageId cacheKey response), storeAltText ora imageId s)"
| "task_step cfg ora (Rebuild imageId cacheKey response) s =
     (None, rebuildCache ora imageId cacheKey response s)"

text \<open>A task run to its end, one outcome record per step.\<close>

fun run_task :: "config \<Rightarrow> outcomes list \<Rightarrow> task \<Rightarrow> store \<Rightarrow> task option \<times> store" where
  "run_task cfg [] t s = (Some t, s)"
| "run_task cfg (ora # oras) t s =
     (case task_step cfg ora t s of
        (None, s') \<Rightarrow> (None, s')
      | (Some t', s') \<Rightarrow> run_task cfg oras t' s')"

section \<open>Upload\<close>

definition startsWith :: "jsstring \<Rightarrow> jsstring \<Rightarrow> bool" where
  "startsWith s p = (take (length p) s = p)"

text \<open>
  Matching a lower-case ASCII literal at the start of a string under the \<^verbatim>\<open>i\<close> flag:
  without the \<^verbatim>\<open>u\<close> flag no code unit outside ASCII is folded onto an ASCII letter.
\<close>

definition toLowerAscii :: "jschar \<Rightarrow> jschar" where
  "toLowerAscii c = (if 0x41 \<le> c \<and> c \<le> 0x5A then c + 0x20 else c)"

definition startsWithCI :: "jsstring \<Rightarrow> jsstring \<Rightarrow> bool" where
  "startsWithCI s p = (map toLowerAscii (take (length p) s) = p)"

definition isLineTerminator :: "jschar \<Rightarrow> bool" where
  "isLineTerminator c = (c \<in> {0x0A, 0x0D, 0x2028, 0x2029})"

definition isDigit :: "jschar \<Rightarrow> bool" where
  "isDigit c = (0x30 \<le> c \<and> c \<le> 0x39)"

text \<open>\<^verbatim>\<open>/^https?:\/\/.+/.test(sourceUrl)\<close>; the dot matches no line terminator.\<close>

definition isHttpUrl :: "jsstring \<Rightarrow> bool" where
  "isHttpUrl s =
     ((startsWith s (js ''http://'') \<and>
         (case drop 7 s of [] \<Rightarrow> False | c # _ \<Rightarrow> \<not> isLineTerminator c))
      \<or> (startsWith s (js ''https://'') \<and>
         (case drop 8 s of [] \<Rightarrow> False | c # _ \<Rightarrow> \<not> isLineTerminator c)))"

text \<open>The five tests of \<^verbatim>\<open>isSafeUrl\<close> on the hostname, in the order of the source.\<close>

definition isLoopback :: "jsstring \<Rightarrow> bool" where
  "isLoopback hostname =
     (startsWithCI hostname (js ''localhost'') \<or> startsWithCI hostname (js ''127.'')
      \<or> startsWithCI hostname (js ''0.0.0.0'') \<or> startsWithCI hostname (js ''::1''))"

definition isLinkLocal :: "jsstring \<Rightarrow> bool" where
  "isLinkLocal hostname = startsWithCI hostname (js ''169.254.'')"

definition isPrivateA :: "jsstring \<Rightarrow> bool" where
  "isPrivateA hostname = startsWithCI hostname (js ''10.'')"

definition isPrivateB :: "jsstring \<Rightarrow> bool" where
  "isPrivateB hostname =
     (startsWithCI hostname (js ''172.'') \<and>
      (case drop 4 hostname of
         a # b # c # _ \<Rightarrow>
           ((a = 0x31 \<and> 0x36 \<le> b \<and> b \<le> 0x39) \<or> (a = 0x32 \<and> isDigit b)
            \<or> (a = 0x33 \<and> (b = 0x30 \<or> b = 0x31)))
           \<and> c = 0x2E
       | _ \<Rightarrow> False))"

definition isPrivateC :: "jsstring \<Rightarrow> bool" where
  "isPrivateC hostname = startsWithCI hostname (js ''192.168.'')"

definition isSafeUrl :: "config \<Rightarrow> jsstring \<Rightarrow> bool" where
  "isSafeUrl cfg urlStr =
     (case URL_hostname cfg urlStr of
        None \<Rightarrow> False
      | Some hostname \<Rightarrow>
          if isLoopback hostname then False
          else if isLinkLocal hostname then False
          else if isPrivateA hostname then False
          else if isPrivateB hostname then False
          else if isPrivateC hostname then False
          else True)"

definition requireBearer :: "config \<Rightarrow> request \<Rightarrow> response option" where
  "requireBearer cfg req =
     (case ADMIN_TOKEN cfg of
        None \<Rightarrow>
          Some (jsonError (Msg (js ''Server misconfiguration: ADMIN_TOKEN not set'')) 500)
      | Some token \<Rightarrow>
          if token = []
          then Some (jsonError (Msg (js ''Server misconfiguration: ADMIN_TOKEN not set'')) 500)
          else if (case authorization req of None \<Rightarrow> [] | Some a \<Rightarrow> a) \<noteq> js ''Bearer '' @ token
          then Some \<lparr>status = 401,
                     headers = [(''WWW-Authenticate'',
                                 js ''Bearer realm='' @ [DQUOTE] @ js ''image-worker'' @ [DQUOTE])],
                     body = PlainText ''Unauthorized''\<rparr>
          else None)"

text \<open>
  \<^verbatim>\<open>(headers.get('content-type') ?? '').split(';')[0].trim().toLowerCase()\<close>.
  \<^verbatim>\<open>toLowerCase\<close> is taken on ASCII letters: the allowed types are ASCII, and no
  other code unit lower-cases to one of their letters.
\<close>

definition mimeTypeOf :: "jsstring option \<Rightarrow> jsstring" where
  "mimeTypeOf ct =
     map toLowerAscii
       (trim (takeWhile (\<lambda>c. c \<noteq> 0x3B) (case ct of None \<Rightarrow> [] | Some c \<Rightarrow> c)))"

text \<open>
  \<^verbatim>\<open>handleUpload\<close> from the remote fetch on. The compensating \<^verbatim>\<open>env.IMAGES.delete\<close> is not awaited; its effect is
  placed in the same step.
\<close>

definition storeFromSource :: "outcomes \<Rightarrow> jsstring \<Rightarrow> store \<Rightarrow> response \<times> store" where
  "storeFromSource ora sourceUrl' s =
     (let s1 = s\<lparr>events := events s @ [Fetch sourceUrl']\<rparr> in
      case fetch_result ora of
        FetchThrows message \<Rightarrow> (withCors (jsonError (FetchFailed message) 502), s1)
      | Fetched upstream ct bytes' \<Rightarrow>
          if \<not> (200 \<le> upstream \<and> upstream \<le> 299)
          then (withCors (jsonError (SourceStatus upstream) 502), s1)
          else
            let mimeType = mimeTypeOf ct
            in if mimeType \<notin> set ALLOWED_TYPES
               then (withCors (jsonError (UnsupportedType mimeType) 415), s1)
               else if length bytes' > MAX_IMAGE_BYTES
               then (withCors (jsonError (TooLarge (length bytes')) 413), s1)
               else
                 let imageId = randomUUID ora;
                     s2 = s1\<lparr>events := events s1 @ [R2Put imageId]\<rparr>
                 in if \<not> r2_put_ok ora
                    then (jsonError (Msg (js ''Storage unavailable'')) 503, s2)
                    else
                      let s3 = s2\<lparr>IMAGES := (IMAGES s2)(imageId \<mapsto>
                                   \<lparr>data = bytes', contentType = Some mimeType,
                                    sourceUrl = sourceUrl', uploadedAt = now ora\<rparr>),
                                 events := events s2 @ [D1Insert imageId sourceUrl']\<rparr>
                      in case (if d1_insert_ok ora
                               then insertImage (DB s3) imageId sourceUrl' (now ora)
                               else None) of
                           None \<Rightarrow>
                             (jsonError (Msg (js ''Database unavailable'')) 503,
                              s3\<lparr>events := events s3 @ [R2Delete imageId],
                                 IMAGES := (if r2_delete_ok ora
                                            then (IMAGES s3)(imageId := None)
                                            else IMAGES s3)\<rparr>)
                         | Some db' \<Rightarrow>
                             (withCors (jsonResponse 201
                                (UploadJson imageId (js ''/images/'' @ imageId)
                                   (js ''Image uploaded '' @ [EM_DASH]
                                    @ js '' alt-text will generate on first access''))),
                              s3\<lparr>DB := db'\<rparr>))"

definition handleUpload :: "config \<Rightarrow> outcomes \<Rightarrow> request \<Rightarrow> store \<Rightarrow> response \<times> store" where
  "handleUpload cfg ora req s =
     (if req_method req \<noteq> ''POST'' then (methodNotAllowed ''POST'', s)
      else case requireBearer cfg req of
        Some authError \<Rightarrow> (authError, s)
      | None \<Rightarrow>
          (case json_url req of
             None \<Rightarrow>
               (jsonError (Msg (js ''Invalid JSON '' @ [EM_DASH] @ js '' expected: {''
                    @ [DQUOTE] @ js ''url'' @ [DQUOTE] @ js '':'' @ [DQUOTE]
                    @ js ''https://...'' @ [DQUOTE] @ js ''}'')) 400, s)
           | Some u \<Rightarrow>
               let sourceUrl' = trim u in
               if \<not> isHttpUrl sourceUrl'
               then (jsonError (Msg (js ''Valid https URL required'')) 400, s)
               else if \<not> isSafeUrl cfg sourceUrl'
               then (withCors (jsonError
                       (Msg (js ''URL resolves to a disallowed network range'')) 400), s)
               else if \<not> d1_select_ok ora
               then (jsonError (Msg (js ''Database unavailable'')) 503, s)
               else (case selectBySourceUrl (DB s) sourceUrl' of
                       Some existing \<Rightarrow>
                         (withCors (jsonResponse 200
                            (UploadJson (row_id existing) (js ''/images/'' @ row_id existing)
                               (js ''Already uploaded''))), s)
                     | None \<Rightarrow> storeFromSource ora sourceUrl' s)))"

section \<open>Audit, rate limiting and the router\<close>

definition isHexDigit :: "jschar \<Rightarrow> bool" where
  "isHexDigit c = (isDigit c \<or> (0x61 \<le> c \<and> c \<le> 0x66) \<or> (0x41 \<le> c \<and> c \<le> 0x46))"

text \<open>\<^verbatim>\<open>UUID_RE.test\<close>: 36 code units, groups of 8, 4, 4, 4 and 12, case-insensitive.\<close>

definition UUID_RE_test :: "jsstring \<Rightarrow> bool" where
  "UUID_RE_test s =
     (length s = 36
      \<and> list_all isHexDigit (take 8 s) \<and> s ! 8 = 0x2D
      \<and> list_all isHexDigit (take 4 (drop 9 s)) \<and> s ! 13 = 0x2D
      \<and> 0x31 \<le> s ! 14 \<and> s ! 14 \<le> 0x35
      \<and> list_all isHexDigit (take 3 (drop 15 s)) \<and> s ! 18 = 0x2D
      \<and> s ! 19 \<in> {0x38, 0x39, 0x61, 0x62, 0x41, 0x42}
      \<and> list_all isHexDigit (take 3 (drop 20 s)) \<and> s ! 23 = 0x2D
      \<and> list_all isHexDigit (drop 24 s))"

definition handleRoot :: response where
  "handleRoot =
     \<lparr>status = 200, headers = [(''Content-Type'', js ''text/html;charset=UTF-8'')], body = Html\<rparr>"

text \<open>
  \<^verbatim>\<open>handleAudit\<close> reads only. Rows with the same \<^verbatim>\<open>created_at\<close> come in an order
  SQL leaves open; the model takes the one of a stable sort.
\<close>

definition handleAudit :: "config \<Rightarrow> outcomes \<Rightarrow> request \<Rightarrow> store \<Rightarrow> response" where
  "handleAudit cfg ora req s =
     (if req_method req \<noteq> ''GET'' then methodNotAllowed ''GET''
      else case requireBearer cfg req of
        Some authError \<Rightarrow> authError
      | None \<Rightarrow>
          (let limit = min (case query_limit req of None \<Rightarrow> 50 | Some l \<Rightarrow> l) 100;
               page = max (case query_page req of None \<Rightarrow> 1 | Some p \<Rightarrow> p) 1;
               offset = (page - 1) * limit;
               id' = (case query_id req of None \<Rightarrow> [] | Some i \<Rightarrow> i)
           in if id' \<noteq> [] \<and> \<not> UUID_RE_test id'
              then withCors (jsonError (Msg (js ''Invalid id'')) 400)
              else if \<not> d1_select_ok ora
              then withCors (jsonError (Msg (js ''Database unavailable'')) 503)
              else if id' \<noteq> []
              then (case selectById (DB s) id' of
                      None \<Rightarrow> withCors (jsonResponse 200 (AuditJson 0 1 1 []))
                    | Some row \<Rightarrow> withCors (jsonResponse 200 (AuditJson 1 1 1 [row])))
              else withCors (jsonResponse 200
                     (AuditJson (length (DB s)) page limit
                        (take limit (drop offset (rev (sort_key created_at (DB s)))))))))"

text \<open>
  \<^verbatim>\<open>rateLimit\<close>. The key \<^verbatim>\<open>rl:${ip}:${win}\<close> is held as the pair of the address and
  the window: the window is a decimal numeral, so the template maps different pairs to
  different keys. The stored value is the count, written with \<^verbatim>\<open>String\<close> and read back
  with \<^verbatim>\<open>Number\<close>.
\<close>

definition tooManyRequests :: response where
  "tooManyRequests =
     \<lparr>status = 429,
      headers = [(''Retry-After'', js ''60''), (''Content-Type'', js ''text/plain'')],
      body = PlainText ''Too Many Requests''\<rparr>"

definition isApiPath :: "jsstring \<Rightarrow> bool" where
  "isApiPath p = (startsWith p (js ''/images/'') \<or> p = js ''/upload'' \<or> p = js ''/audit'')"

text \<open>\<^verbatim>\<open>request.headers.get('CF-Connecting-IP') ?? 'anonymous'\<close>.\<close>

definition clientIp :: "request \<Rightarrow> jsstring" where
  "clientIp req = (case cf_connecting_ip req of None \<Rightarrow> js ''anonymous'' | Some a \<Rightarrow> a)"

definition rateLimit ::
  "config \<Rightarrow> outcomes \<Rightarrow> request \<Rightarrow> (jsstring \<times> nat, nat) kv
     \<Rightarrow> response option \<times> (jsstring \<times> nat, nat) kv" where
  "rateLimit cfg ora req kv =
     (if \<not> isApiPath (pathname req) then (None, kv)
      else if \<not> RATE_LIMIT_bound cfg then (None, kv)
      else
        let ip = clientIp req;
            win = now ora div 60000;
            key = (ip, win)
        in if \<not> rl_get_ok ora then (None, kv)
           else
             let count = (case kvGet kv key (now ora) of None \<Rightarrow> 0 | Some n \<Rightarrow> n)
             in if count \<ge> RATE_LIMIT_MAX then (Some tooManyRequests, kv)
                else if rl_put_ok ora
                then (None, kvPut kv key (count + 1) (now ora) RATE_LIMIT_TTL)
                else (None, kv))"

text \<open>
  The whole worker: the KV namespace \<^verbatim>\<open>RATE_LIMIT\<close>, which only \<^verbatim>\<open>rateLimit\<close>
  touches, the stores of the handlers, and the tasks given to \<^verbatim>\<open>ctx.waitUntil\<close> that
  have not finished.
\<close>

record world =
  RATE_LIMIT :: "(jsstring \<times> nat, nat) kv"
  st :: store
  waitUntil :: "task list"

text \<open>\<^verbatim>\<open>pathname.replace(/^\/images\/+/, '')\<close>.\<close>

definition imageIdOf :: "jsstring \<Rightarrow> jsstring" where
  "imageIdOf p =
     (if startsWith p (js ''/images/'') then dropWhile (\<lambda>c. c = 0x2F) (drop 8 p) else p)"

text \<open>
  \<^verbatim>\<open>router\<close> behind the rate limiter: the choice of the handler. The response is
  \<open>None\<close> when the handler throws; what was written before the throw stays written.
\<close>

definition route :: "config \<Rightarrow> outcomes \<Rightarrow> request \<Rightarrow> world \<Rightarrow> response option \<times> world" where
  "route cfg ora req w =
     (if pathname req = js ''/'' then (Some handleRoot, w)
      else if pathname req = js ''/favicon.ico''
      then (Some \<lparr>status = 204, headers = [], body = NoBody\<rparr>, w)
      else if pathname req = js ''/audit'' then (Some (handleAudit cfg ora req (st w)), w)
      else if pathname req = js ''/upload''
      then (case handleUpload cfg ora req (st w) of
              (response, s') \<Rightarrow> (Some response, w\<lparr>st := s'\<rparr>))
      else if startsWith (pathname req) (js ''/images/'')
              \<and> UUID_RE_test (imageIdOf (pathname req))
      then (case handleImage ora (imageIdOf (pathname req)) req (st w) of
              None \<Rightarrow> (None, w)
            | Some (response, None) \<Rightarrow> (Some response, w)
            | Some (response, Some t) \<Rightarrow> (Some response, w\<lparr>waitUntil := waitUntil w @ [t]\<rparr>))
      else (Some (jsonResponse 404 RoutesJson), w))"

definition router :: "config \<Rightarrow> outcomes \<Rightarrow> request \<Rightarrow> world \<Rightarrow> response option \<times> world" where
  "router cfg ora req w =
     (if req_method req = ''OPTIONS''
      then (Some \<lparr>status = 204, headers = CORS_HEADERS, body = NoBody\<rparr>, w)
      else if pathname req = js ''/health''
      then (Some \<lparr>status = 200,
                  headers = (''Content-Type'', js ''application/json'') # CORS_HEADERS,
                  body = HealthJson (now ora)\<rparr>, w)
      else
        (case rateLimit cfg ora req (RATE_LIMIT w) of
           (Some rateLimitResponse, kv) \<Rightarrow> (Some rateLimitResponse, w\<lparr>RATE_LIMIT := kv\<rparr>)
         | (None, kv) \<Rightarrow> route cfg ora req (w\<lparr>RATE_LIMIT := kv\<rparr>)))"

text \<open>The entry point \<^verbatim>\<open>fetch\<close>: what \<^verbatim>\<open>router\<close> throws becomes the status 500.\<close>

definition fetch :: "config \<Rightarrow> outcomes \<Rightarrow> request \<Rightarrow> world \<Rightarrow> response \<times> world" where
  "fetch cfg ora req w =
     (case router cfg ora req w of
        (Some response, w') \<Rightarrow> (response, w')
      | (None, w') \<Rightarrow> (jsonError (Msg (js ''Internal server error'')) 500, w'))"

section \<open>Executions\<close>

definition initial :: world where
  "initial =
     \<lparr>RATE_LIMIT = Map.empty,
      st = \<lparr>DB = [], IMAGES = Map.empty, AI_QUOTA = Map.empty, cache = Map.empty, events = []\<rparr>,
      waitUntil = []\<rparr>"

text \<open>The \<open>i\<close>-th waiting task takes one step.\<close>

definition background :: "config \<Rightarrow> outcomes \<Rightarrow> nat \<Rightarrow> world \<Rightarrow> world" where
  "background cfg ora i w =
     (if i < length (waitUntil w)
      then (case task_step cfg ora (waitUntil w ! i) (st w) of
              (None, s') \<Rightarrow> w\<lparr>st := s', waitUntil := take i (waitUntil w) @ drop (Suc i) (waitUntil w)\<rparr>
            | (Some t', s') \<Rightarrow> w\<lparr>st := s', waitUntil := (waitUntil w)[i := t']\<rparr>)
      else w)"

text \<open>The edge drops a cache entry (it expired, or was evicted).\<close>

definition evict :: "jsstring \<Rightarrow> world \<Rightarrow> world" where
  "evict cacheKey w = w\<lparr>st := (st w)\<lparr>cache := (cache (st w))(cacheKey := None)\<rparr>\<rparr>"

text \<open>
  What happens in an execution: a request is handled, a waiting task takes a step, or
  the edge drops a cache entry. \<open>run\<close> performs a list of these one after the other and
  gives, in order, the response of each request (\<open>None\<close> for the other steps), and the
  last state. A request is handled to its end before the next step begins; in
  particular no other request comes between the read and the write of the counter in
  \<^verbatim>\<open>rateLimit\<close>.
\<close>

datatype action =
    Request outcomes request
  | Background outcomes nat
  | Evict jsstring

fun perform :: "config \<Rightarrow> action \<Rightarrow> world \<Rightarrow> response option \<times> world" where
  "perform cfg (Request ora req) w =
     (case fetch cfg ora req w of (response, w') \<Rightarrow> (Some response, w'))"
| "perform cfg (Background ora i) w = (None, background cfg ora i w)"
| "perform cfg (Evict cacheKey) w = (None, evict cacheKey w)"

fun run :: "config \<Rightarrow> action list \<Rightarrow> world \<Rightarrow> response option list \<times> world" where
  "run cfg [] w = ([], w)"
| "run cfg (x # rest) w =
     (case perform cfg x w of
        (response, w') \<Rightarrow> (case run cfg rest w' of (responses, w'') \<Rightarrow> (response # responses, w'')))"

text \<open>
  The states the worker reaches from the empty one: requests are handled one at a time,
  and between any two of them any waiting task may take a step and any cache entry may
  go. Each store is one consistent copy. The calls the source does not guard
  (\<^verbatim>\<open>cache.match\<close>, \<^verbatim>\<open>arrayBuffer\<close>, \<^verbatim>\<open>cache.put\<close>) are taken not to throw, so
  the status 500 of the entry point's \<^verbatim>\<open>catch\<close> comes from a header value that
  \<^verbatim>\<open>Headers\<close> refuses and from nothing else.
\<close>

inductive reachable :: "config \<Rightarrow> world \<Rightarrow> bool" for cfg :: config where
  reach_initial: "reachable cfg initial"
| reach_request: "reachable cfg w \<Longrightarrow> reachable cfg (snd (fetch cfg ora req w))"
| reach_background: "reachable cfg w \<Longrightarrow> reachable cfg (background cfg ora i w)"
| reach_evict: "reachable cfg w \<Longrightarrow> reachable cfg (evict cacheKey w)"

section \<open>A worked scenario\<close>

text \<open>
  One deployment and a few requests, used to run the definitions on concrete inputs.
  \<open>demo_hostname\<close> stands in for the platform's URL parser on URLs of the form
  \<^verbatim>\<open>scheme://host/path\<close>.
\<close>

definition demo_hostname :: "jsstring \<Rightarrow> jsstring option" where
  "demo_hostname u =
     Some (takeWhile (\<lambda>c. c \<noteq> 0x2F)
             (dropWhile (\<lambda>c. c = 0x2F) (drop 1 (dropWhile (\<lambda>c. c \<noteq> 0x3A) u))))"

definition demo_cfg :: config where
  "demo_cfg =
     \<lparr>ADMIN_TOKEN = Some (js ''secret''), RATE_LIMIT_bound = True, AI_QUOTA_bound = True,
      URL_hostname = demo_hostname\<rparr>"

definition demo_id :: jsstring where
  "demo_id = js ''123e4567-e89b-42d3-a456-426614174000''"

definition demo_ok :: outcomes where
  "demo_ok =
     \<lparr>now = 1000, rl_get_ok = True, rl_put_ok = True, lock_get_ok = True, lock_put_ok = True,
      d1_select_ok = True, d1_insert_ok = True, d1_upsert_ok = True, r2_get_ok = True,
      r2_put_ok = True, r2_delete_ok = True,
      fetch_result = Fetched 200 (Some (js ''image/png'')) [1, 2, 3],
      ai_result = AiResult (Some (js ''A cat'')), randomUUID = demo_id\<rparr>"

definition demo_upload :: request where
  "demo_upload =
     \<lparr>req_method = ''POST'', url = js ''https://img.example/upload'', pathname = js ''/upload'',
      cf_connecting_ip = Some (js ''203.0.113.7''), authorization = Some (js ''Bearer secret''),
      json_url = Some (js ''https://example.com/a.png''), query_id = None, query_limit = None,
      query_page = None\<rparr>"

definition demo_upload_loopback :: request where
  "demo_upload_loopback = demo_upload\<lparr>json_url := Some (js ''http://127.0.0.1/admin'')\<rparr>"

definition demo_read :: request where
  "demo_read =
     \<lparr>req_method = ''GET'', url = js ''https://img.example/images/'' @ demo_id,
      pathname = js ''/images/'' @ demo_id, cf_connecting_ip = Some (js ''203.0.113.7''),
      authorization = None, json_url = None, query_id = None, query_limit = None,
      query_page = None\<rparr>"

definition demo_object :: r2object where
  "demo_object =
     \<lparr>data = [1, 2, 3], contentType = Some (js ''image/png''),
      sourceUrl = js ''https://example.com/a.png'', uploadedAt = 1000\<rparr>"

definition demo_row :: image_row where
  "demo_row =
     \<lparr>row_id = demo_id, source_url = Some (js ''https://example.com/a.png''), alt_text = None,
      created_at = 1000, updated_at = None\<rparr>"

text \<open>The response to a read of the image of the scenario before it has a description,
  and the one after the model has answered \<^verbatim>\<open>A cat\<close>.\<close>

definition demo_pending :: response where
  "demo_pending =
     \<lparr>status = 200,
      headers =
        [(''Content-Type'', js ''image/png''),
         (''X-Alt-Text'', PENDING_ALT_TEXT),
         (''Cache-Control'', CACHE_CONTROL_PENDING),
         (''X-Image-Id'', demo_id),
         (''Access-Control-Allow-Origin'', js ''*''),
         (''Access-Control-Expose-Headers'',
            js ''X-Alt-Text, X-Image-Id, CF-Cache-Status, Cache-Control'')],
      body = ImageBytes [1, 2, 3]\<rparr>"

definition demo_described :: response where
  "demo_described =
     \<lparr>status = 200,
      headers =
        [(''Content-Type'', js ''image/png''),
         (''X-Alt-Text'', js ''A cat''),
         (''Cache-Control'', CACHE_CONTROL_READY),
         (''X-Image-Id'', demo_id),
         (''Access-Control-Allow-Origin'', js ''*''),
         (''Access-Control-Expose-Headers'',
            js ''X-Alt-Text, X-Image-Id, CF-Cache-Status, Cache-Control'')],
      body = ImageBytes [1, 2, 3]\<rparr>"

text \<open>The stores after the upload, after the model was called, after its answer was
  stored, and after the cache entry was rebuilt.\<close>

definition demo_s1 :: store where
  "demo_s1 =
     \<lparr>DB = [demo_row], IMAGES = [demo_id \<mapsto> demo_object], AI_QUOTA = Map.empty,
      cache = Map.empty,
      events = [Fetch (js ''https://example.com/a.png''), R2Put demo_id,
                D1Insert demo_id (js ''https://example.com/a.png'')]\<rparr>"

definition demo_s3 :: store where
  "demo_s3 =
     demo_s1\<lparr>AI_QUOTA := [demo_id \<mapsto> (js ''1'', 301000)],
             events := events demo_s1 @ [AiRun demo_id [1, 2, 3]]\<rparr>"

definition demo_s4 :: store where
  "demo_s4 =
     demo_s3\<lparr>DB := [demo_row\<lparr>alt_text := Some (js ''A cat''), updated_at := Some 1000\<rparr>],
             events := events demo_s3 @ [D1Upsert demo_id (js ''A cat'')]\<rparr>"

definition demo_s5 :: store where
  "demo_s5 =
     demo_s4\<lparr>cache := [js ''https://img.example/images/'' @ demo_id \<mapsto> demo_described]\<rparr>"

text \<open>The same run as states of the worker: upload, first read, and the three steps of
  the task the read started.\<close>

definition demo_w1 :: world where
  "demo_w1 = snd (fetch demo_cfg demo_ok demo_upload initial)"

definition demo_w2 :: world where
  "demo_w2 = snd (fetch demo_cfg demo_ok demo_read demo_w1)"

definition demo_w3 :: world where
  "demo_w3 = background demo_cfg demo_ok 0 demo_w2"

definition demo_w4 :: world where
  "demo_w4 = background demo_cfg demo_ok 0 demo_w3"

definition demo_w5 :: world where
  "demo_w5 = background demo_cfg demo_ok 0 demo_w4"

text \<open>Outcomes in which something outside the worker fails.\<close>

definition demo_insert_fails :: outcomes where
  "demo_insert_fails = demo_ok\<lparr>d1_insert_ok := False, r2_delete_ok := False\<rparr>"

definition demo_d1_down :: outcomes where
  "demo_d1_down = demo_ok\<lparr>now := 1000000, d1_select_ok := False\<rparr>"

text \<open>Later on: the cache entry is gone, and a read arrives while D1 does not answer.\<close>

definition demo_w6 :: world where
  "demo_w6 = evict (url demo_read) demo_w5"

definition demo_w7 :: world where
  "demo_w7 = snd (fetch demo_cfg demo_d1_down demo_read demo_w6)"

definition demo_w8 :: world where
  "demo_w8 = background demo_cfg demo_d1_down 0 demo_w7"

text \<open>A CORS preflight for the upload path, a state in which the address of the scenario
  has used up its ten requests of the first minute, and outcomes with the rate-limit
  store failing.\<close>

definition demo_preflight :: request where
  "demo_preflight = demo_upload\<lparr>req_method := ''OPTIONS''\<rparr>"

definition demo_w_limit :: world where
  "demo_w_limit =
     \<lparr>RATE_LIMIT = [(js ''203.0.113.7'', 0) \<mapsto> (10, 76000)], st = demo_s1, waitUntil = []\<rparr>"

definition demo_kv_down :: outcomes where
  "demo_kv_down = demo_ok\<lparr>rl_get_ok := False\<rparr>"

definition demo_kv_put_down :: outcomes where
  "demo_kv_put_down = demo_ok\<lparr>rl_put_ok := False\<rparr>"








text \<open>
  A model answer with a line feed inside. The sanitiser keeps the line feed, the
  description is stored, and \<^verbatim>\<open>Headers\<close> refuses it as a value.
\<close>

definition demo_two_lines :: jsstring where
  "demo_two_lines = js ''A cat'' @ [0x0A] @ js ''on a mat''"

definition demo_model_two_lines :: outcomes where
  "demo_model_two_lines = demo_ok\<lparr>ai_result := AiResult (Some demo_two_lines)\<rparr>"

definition demo_u4 :: world where
  "demo_u4 = background demo_cfg demo_model_two_lines 0 demo_w3"


section \<open>Predicates used to state the properties\<close>

text \<open>Every stored description is a non-empty output of the sanitiser.\<close>

definition sanitisedRows :: "image_row list \<Rightarrow> bool" where
  "sanitisedRows db =
     (\<forall>r \<in> set db. case alt_text r of
                       None \<Rightarrow> True
                     | Some a \<Rightarrow> a \<noteq> [] \<and> a \<in> range sanitiseAltText)"




text \<open>
  Every blob in the bucket was stored with one of the allowed content types.
\<close>

definition allowedBlobs :: "(jsstring \<rightharpoonup> r2object) \<Rightarrow> bool" where
  "allowedBlobs images =
     (\<forall>i obj. images i = Some obj \<longrightarrow> (\<exists>t \<in> set ALLOWED_TYPES. contentType obj = Some t))"

text \<open>
  A read of an image together with the task it hands to \<^verbatim>\<open>ctx.waitUntil\<close>, run to its
  end; and reads of one image, one after the other. Each read comes with the outcomes
  for the request and for the steps of its task. A read that throws is answered by the
  entry point and hands over nothing.
\<close>

definition serve ::
  "config \<Rightarrow> outcomes \<Rightarrow> outcomes list \<Rightarrow> jsstring \<Rightarrow> request \<Rightarrow> store \<Rightarrow> response \<times> store" where
  "serve cfg ora oras imageId req s =
     (case handleImage ora imageId req s of
        None \<Rightarrow> (jsonError (Msg (js ''Internal server error'')) 500, s)
      | Some (response, None) \<Rightarrow> (response, s)
      | Some (response, Some t) \<Rightarrow> (response, snd (run_task cfg oras t s)))"

fun serveAll ::
  "config \<Rightarrow> (outcomes \<times> outcomes list \<times> request) list \<Rightarrow> jsstring \<Rightarrow> store \<Rightarrow> store" where
  "serveAll cfg [] imageId s = s"
| "serveAll cfg ((ora, oras, req) # reads) imageId s =
     serveAll cfg reads imageId (snd (serve cfg ora oras imageId req s))"

text \<open>
  A request that the limiter counts for the address \<open>ip\<close> in the minute \<open>win\<close>: not a
  preflight, on an API path, from that address, at a time in that minute, with the
  rate-limit store answering both the read and the write. \<open>counted\<close> says so of a step
  of an execution.
\<close>

definition inWindow :: "jsstring \<Rightarrow> nat \<Rightarrow> outcomes \<times> request \<Rightarrow> bool" where
  "inWindow ip win x =
     (req_method (snd x) \<noteq> ''OPTIONS'' \<and> isApiPath (pathname (snd x))
      \<and> clientIp (snd x) = ip \<and> now (fst x) div 60000 = win
      \<and> rl_get_ok (fst x) \<and> rl_put_ok (fst x))"

fun counted :: "jsstring \<Rightarrow> nat \<Rightarrow> action \<Rightarrow> bool" where
  "counted ip win (Request ora req) = inWindow ip win (ora, req)"
| "counted ip win (Background ora i) = False"
| "counted ip win (Evict cacheKey) = False"

text \<open>The counter of \<open>(ip, win)\<close> stands at \<open>c\<close> and does not expire within the minute.\<close>

definition counterIs :: "(jsstring \<times> nat, nat) kv \<Rightarrow> jsstring \<Rightarrow> nat \<Rightarrow> nat \<Rightarrow> bool" where
  "counterIs kv ip win c =
     (case kv (ip, win) of
        None \<Rightarrow> c = 0
      | Some (n, expires) \<Rightarrow> n = c \<and> (win + 1) * 60000 \<le> expires)"

text \<open>
  Every recorded source URL is trimmed and passed the two checks of \<^verbatim>\<open>handleUpload\<close>;
  and no two rows record the same source URL.
\<close>

definition validSources :: "config \<Rightarrow> image_row list \<Rightarrow> bool" where
  "validSources cfg db =
     (\<forall>r \<in> set db. case source_url r of
                       None \<Rightarrow> True
                     | Some u \<Rightarrow> trim u = u \<and> isHttpUrl u \<and> isSafeUrl cfg u)"

definition uniqueSources :: "image_row list \<Rightarrow> bool" where
  "uniqueSources db =
     (\<forall>r \<in> set db. \<forall>r' \<in> set db.
        source_url r \<noteq> None \<and> source_url r = source_url r' \<longrightarrow> r = r')"


section \<open>The sanitiser\<close>

lemma length_sanitiseAltText: "length (sanitiseAltText x) \<le> ALT_TEXT_MAX_LEN"
  by (simp add: sanitiseAltText_def)

lemma stripTags_without_lt: "0x3C \<notin> set s \<Longrightarrow> stripTags s = s"
  by (induction s) auto

lemma escapeHtml_plain: "\<forall>c \<in> set s. HTML_ESCAPE_MAP c = None \<Longrightarrow> escapeHtml s = s"
  by (induction s) (auto simp: escapeHtml_def)

lemma HTML_ESCAPE_MAP_None_iff:
  "HTML_ESCAPE_MAP c = None \<longleftrightarrow> c \<notin> {0x26, 0x3C, 0x3E, 0x22, 0x27, 0x60}"
  by (simp add: HTML_ESCAPE_MAP_def)

lemma entity_chars:
  "HTML_ESCAPE_MAP c = Some e \<Longrightarrow> d \<in> set e \<Longrightarrow> d \<notin> {0x3C, 0x3E, 0x22, 0x27, 0x60}"
  unfolding HTML_ESCAPE_MAP_def js_def by (auto split: if_splits)

lemma escaped_char_chars:
  assumes "d \<in> set (case HTML_ESCAPE_MAP c of Some e \<Rightarrow> e | None \<Rightarrow> [c])"
  shows "d \<notin> {0x3C, 0x3E, 0x22, 0x27, 0x60}"
proof (cases "HTML_ESCAPE_MAP c")
  case None
  with assms have "d = c" by simp
  moreover from None have "c \<notin> {0x26, 0x3C, 0x3E, 0x22, 0x27, 0x60}"
    by (simp add: HTML_ESCAPE_MAP_None_iff)
  ultimately show ?thesis by simp
next
  case (Some e)
  then show ?thesis using assms entity_chars [OF Some, of d] by simp
qed

lemma escapeHtml_chars: "c \<in> set (escapeHtml s) \<Longrightarrow> c \<notin> {0x3C, 0x3E, 0x22, 0x27, 0x60}"
  unfolding escapeHtml_def using escaped_char_chars by fastforce

text \<open>
  A sanitiser output that holds no ampersand and that \<^verbatim>\<open>trim\<close> leaves alone is a fixed
  point of the sanitiser.
\<close>

lemma sanitiseAltText_fixed:
  assumes "0x26 \<notin> set y" and "trim y = y" and "y = sanitiseAltText x"
  shows "sanitiseAltText y = y"
proof -
  have sub: "set y \<subseteq> set (escapeHtml (stripTags (trim x)))"
    using assms(3) by (auto simp: sanitiseAltText_def dest: in_set_takeD)
  have none: "\<forall>c \<in> set y. HTML_ESCAPE_MAP c = None"
  proof
    fix c assume c: "c \<in> set y"
    with sub have "c \<notin> {0x3C, 0x3E, 0x22, 0x27, 0x60}" using escapeHtml_chars by blast
    moreover from c assms(1) have "c \<noteq> 0x26" by auto
    ultimately show "HTML_ESCAPE_MAP c = None" by (simp add: HTML_ESCAPE_MAP_None_iff)
  qed
  then have "0x3C \<notin> set y" by (auto simp: HTML_ESCAPE_MAP_None_iff)
  then have "stripTags y = y" by (rule stripTags_without_lt)
  moreover have "escapeHtml y = y" using none by (rule escapeHtml_plain)
  moreover have "length y \<le> ALT_TEXT_MAX_LEN" using assms(3) length_sanitiseAltText by simp
  ultimately show ?thesis
    using assms(2) by (simp add: sanitiseAltText_def)
qed

lemmas sanitise_eval =
  sanitiseAltText_def escapeHtml_def HTML_ESCAPE_MAP_def trim_def isTrimChar_def js_def
  ALT_TEXT_MAX_LEN_def

text \<open>
  Claim C3, as the specification states it: \<^verbatim>\<open>sanitize(sanitize(x)) == sanitize(x)\<close> for
  every text \<open>x\<close>. It fails: the sanitiser escapes the ampersand, and its own entities
  begin with one, so \<^verbatim>\<open>&\<close> becomes \<^verbatim>\<open>&amp;\<close> and then \<^verbatim>\<open>&amp;amp;\<close>.
\<close>

theorem sanitiseAltText_not_idempotent:
  "sanitiseAltText (sanitiseAltText (js ''&'')) \<noteq> sanitiseAltText (js ''&'')"
  by (simp add: sanitise_eval)

text \<open>
  Claim C3, amended: the sanitiser is idempotent at every \<open>x\<close> whose sanitised form holds
  no ampersand and has no white space at either end (tag removal and truncation can
  leave some there). Every other escaped character is already gone from a sanitised
  text.
\<close>

theorem sanitiseAltText_idempotent_on_plain:
  assumes "0x26 \<notin> set (sanitiseAltText x)"
    and "trim (sanitiseAltText x) = sanitiseAltText x"
  shows "sanitiseAltText (sanitiseAltText x) = sanitiseAltText x"
  using assms by (intro sanitiseAltText_fixed [where x = x]) simp_all

theorem sanitiseAltText_idempotent_on_plain_witness:
  "0x26 \<notin> set (sanitiseAltText (js '' <b>a cat</b>  ''))
   \<and> trim (sanitiseAltText (js '' <b>a cat</b>  '')) = sanitiseAltText (js '' <b>a cat</b>  '')
   \<and> sanitiseAltText (sanitiseAltText (js '' <b>a cat</b>  ''))
       = sanitiseAltText (js '' <b>a cat</b>  '')
   \<and> sanitiseAltText (js '' <b>a cat</b>  '') = js ''a cat''"
proof -
  have e: "sanitiseAltText (js '' <b>a cat</b>  '') = js ''a cat''"
    by (simp add: sanitise_eval)
  have h1: "0x26 \<notin> set (sanitiseAltText (js '' <b>a cat</b>  ''))"
    unfolding e by (simp add: js_def)
  have h2: "trim (sanitiseAltText (js '' <b>a cat</b>  '')) = sanitiseAltText (js '' <b>a cat</b>  '')"
    unfolding e by (simp add: trim_def isTrimChar_def js_def)
  from sanitiseAltText_idempotent_on_plain [OF h1 h2] h1 h2 e show ?thesis by simp
qed


section \<open>Responses\<close>

lemma status_withCors [simp]: "status (withCors r) = status r" "body (withCors r) = body r"
  by (simp_all add: withCors_def)

lemma status_jsonResponse [simp]: "status (jsonResponse n b) = n" "body (jsonResponse n b) = b"
  by (simp_all add: jsonResponse_def)

lemma status_jsonError [simp]: "status (jsonError m n) = n" "body (jsonError m n) = ErrorJson m"
  by (simp_all add: jsonError_def)

lemma status_methodNotAllowed [simp]: "status (methodNotAllowed a) = 405"
  by (simp add: methodNotAllowed_def)

lemma requireBearer_status:
  "requireBearer cfg req = Some r \<Longrightarrow> status r = 500 \<or> status r = 401"
  by (auto simp: requireBearer_def split: option.splits if_splits)

section \<open>Header values\<close>

lemma headerValue_Some: "headerValue v = Some n \<Longrightarrow> n = stripHttpWhitespace v"
  by (simp add: headerValue_def Let_def split: if_splits)

lemma headerValue_literals:
  "headerValue PENDING_ALT_TEXT = Some PENDING_ALT_TEXT"
  "headerValue CACHE_CONTROL_READY = Some CACHE_CONTROL_READY"
  "headerValue CACHE_CONTROL_PENDING = Some CACHE_CONTROL_PENDING"
  "headerValue (js ''*'') = Some (js ''*'')"
  "headerValue (js ''X-Alt-Text, X-Image-Id, CF-Cache-Status, Cache-Control'')
     = Some (js ''X-Alt-Text, X-Image-Id, CF-Cache-Status, Cache-Control'')"
  by (simp_all add: headerValue_def stripHttpWhitespace_def isHttpWhitespace_def
      PENDING_ALT_TEXT_def EM_DASH_def CACHE_CONTROL_READY_def CACHE_CONTROL_PENDING_def js_def)

text \<open>A value without white space and without NUL is taken as it is.\<close>

lemma headerValue_plain:
  assumes "\<forall>c \<in> set v. \<not> isHttpWhitespace c \<and> c \<noteq> 0"
  shows "headerValue v = Some v"
proof -
  from assms have front: "dropWhile isHttpWhitespace v = v"
    by (cases v) simp_all
  from assms have "\<forall>c \<in> set (rev v). \<not> isHttpWhitespace c" by simp
  then have "dropWhile isHttpWhitespace (rev v) = rev v"
    by (cases "rev v") simp_all
  with front have s: "stripHttpWhitespace v = v" by (simp add: stripHttpWhitespace_def)
  from assms have "\<not> list_ex (\<lambda>c. c = 0x00 \<or> c = 0x0A \<or> c = 0x0D) v"
    by (auto simp: list_ex_iff isHttpWhitespace_def)
  with s show ?thesis by (simp add: headerValue_def)
qed

lemma headerValue_allowed: "t \<in> set ALLOWED_TYPES \<Longrightarrow> headerValue t = Some t"
  by (auto simp: ALLOWED_TYPES_def headerValue_def stripHttpWhitespace_def isHttpWhitespace_def
      js_def)

lemma list_all_take_drop_nth:
  assumes "list_all P (take n (drop m s))" and "m \<le> i" and "i < m + n" and "i < length s"
  shows "P (s ! i)"
proof -
  from assms(2-4) have l: "i - m < length (take n (drop m s))" by simp arith
  with assms(1) have "P (take n (drop m s) ! (i - m))" by (simp only: list_all_length)
  moreover from assms(2-4) have "take n (drop m s) ! (i - m) = s ! i" by simp
  ultimately show ?thesis by simp
qed

lemma isHexDigit_plain: "isHexDigit c \<Longrightarrow> \<not> isHttpWhitespace c \<and> c \<noteq> 0"
  by (auto simp: isHexDigit_def isDigit_def isHttpWhitespace_def)

lemma UUID_chars:
  assumes "UUID_RE_test s" and "i < length s"
  shows "isHexDigit (s ! i) \<or> s ! i = 0x2D"
proof -
  from assms(1) have len: "length s = 36"
    and g1: "list_all isHexDigit (take 8 (drop 0 s))"
    and g2: "list_all isHexDigit (take 4 (drop 9 s))"
    and g3: "list_all isHexDigit (take 3 (drop 15 s))"
    and g4: "list_all isHexDigit (take 3 (drop 20 s))"
    and g5: "list_all isHexDigit (take 12 (drop 24 s))"
    and d: "s ! 8 = 0x2D" "s ! 13 = 0x2D" "s ! 18 = 0x2D" "s ! 23 = 0x2D"
    and v: "0x31 \<le> s ! 14 \<and> s ! 14 \<le> 0x35"
    and y: "s ! 19 \<in> {0x38, 0x39, 0x61, 0x62, 0x41, 0x42}"
    by (simp_all add: UUID_RE_test_def)
  have lo: "(0x30 :: 16 word) \<le> 0x31" and hi: "(0x35 :: 16 word) \<le> 0x39" by simp_all
  from order_trans [OF lo conjunct1 [OF v]] order_trans [OF conjunct2 [OF v] hi]
  have h14: "isHexDigit (s ! 14)"
    by (simp add: isHexDigit_def isDigit_def)
  from y have h19: "isHexDigit (s ! 19)"
    by (auto simp: isHexDigit_def isDigit_def)
  from assms(2) len consider "i < 8" | "i = 8" | "9 \<le> i \<and> i < 13" | "i = 13" | "i = 14"
    | "15 \<le> i \<and> i < 18" | "i = 18" | "i = 19" | "20 \<le> i \<and> i < 23" | "i = 23"
    | "24 \<le> i \<and> i < 36"
    by linarith
  then show ?thesis
  proof cases
    case 1
    with list_all_take_drop_nth [OF g1, of i] len show ?thesis by simp
  next
    case 3
    with list_all_take_drop_nth [OF g2, of i] len show ?thesis by simp
  next
    case 6
    with list_all_take_drop_nth [OF g3, of i] len show ?thesis by simp
  next
    case 9
    with list_all_take_drop_nth [OF g4, of i] len show ?thesis by simp
  next
    case 11
    with list_all_take_drop_nth [OF g5, of i] len show ?thesis by simp
  qed (use d h14 h19 in simp_all)
qed

lemma UUID_headerValue: "UUID_RE_test i \<Longrightarrow> headerValue i = Some i"
proof (rule headerValue_plain, rule ballI)
  fix c
  assume u: "UUID_RE_test i" and "c \<in> set i"
  then obtain n where n: "n < length i" "c = i ! n" by (auto simp: in_set_conv_nth)
  from UUID_chars [OF u n(1)] n(2) have "isHexDigit c \<or> c = 0x2D" by simp
  then show "\<not> isHttpWhitespace c \<and> c \<noteq> 0"
  proof
    assume "isHexDigit c"
    then show ?thesis by (rule isHexDigit_plain)
  next
    assume "c = 0x2D"
    then show ?thesis by (simp add: isHttpWhitespace_def)
  qed
qed

section \<open>The response of \<^verbatim>\<open>handleImage\<close>\<close>

lemma imageResponse_eq:
  "imageResponse ct a i b =
     (case headerValue ct of
        None \<Rightarrow> None
      | Some ct' \<Rightarrow>
          (case headerValue (if a \<noteq> [] then a else PENDING_ALT_TEXT) of
             None \<Rightarrow> None
           | Some x \<Rightarrow>
               (case headerValue i of
                  None \<Rightarrow> None
                | Some i' \<Rightarrow>
                    Some \<lparr>status = 200,
                          headers =
                            [(''Content-Type'', ct'),
                             (''X-Alt-Text'', x),
                             (''Cache-Control'',
                                if a \<noteq> [] then CACHE_CONTROL_READY else CACHE_CONTROL_PENDING),
                             (''X-Image-Id'', i'),
                             (''Access-Control-Allow-Origin'', js ''*''),
                             (''Access-Control-Expose-Headers'',
                                js ''X-Alt-Text, X-Image-Id, CF-Cache-Status, Cache-Control'')],
                          body = ImageBytes b\<rparr>)))"
  by (simp add: imageResponse_def headerValue_literals split: option.split)

lemma imageResponse_fields:
  assumes "imageResponse ct a i b = Some r"
  shows "getHeader ''X-Alt-Text'' r
      = Some (if a \<noteq> [] then stripHttpWhitespace a else PENDING_ALT_TEXT)"
    and "getHeader ''Cache-Control'' r
      = Some (if a \<noteq> [] then CACHE_CONTROL_READY else CACHE_CONTROL_PENDING)"
    and "status r = 200"
    and "body r = ImageBytes b"
    and "a \<noteq> [] \<longrightarrow> headerValue a = Some (stripHttpWhitespace a)"
  using assms
  by (auto simp: imageResponse_eq getHeader_def headerValue_literals
      split: option.splits if_splits dest: headerValue_Some)

lemma imageResponse_pending:
  assumes "headerValue ct = Some ct'" and "headerValue i = Some i'"
  shows "\<exists>r. imageResponse ct [] i b = Some r"
  using assms by (simp add: imageResponse_eq headerValue_literals)

lemma find_append:
  "find P (xs @ ys) = (case find P xs of None \<Rightarrow> find P ys | Some x \<Rightarrow> Some x)"
  by (induction xs) auto

section \<open>The scenario, evaluated\<close>

lemma demo_ok_fields:
  "now demo_ok = 1000" "rl_get_ok demo_ok" "rl_put_ok demo_ok" "lock_get_ok demo_ok"
  "lock_put_ok demo_ok" "d1_select_ok demo_ok" "d1_insert_ok demo_ok" "d1_upsert_ok demo_ok"
  "r2_get_ok demo_ok" "r2_put_ok demo_ok" "r2_delete_ok demo_ok"
  "fetch_result demo_ok = Fetched 200 (Some (js ''image/png'')) [1, 2, 3]"
  "ai_result demo_ok = AiResult (Some (js ''A cat''))" "randomUUID demo_ok = demo_id"
  by (simp_all add: demo_ok_def)

lemma demo_upload_fields:
  "req_method demo_upload = ''POST''" "pathname demo_upload = js ''/upload''"
  "cf_connecting_ip demo_upload = Some (js ''203.0.113.7'')"
  "json_url demo_upload = Some (js ''https://example.com/a.png'')"
  by (simp_all add: demo_upload_def)

lemma demo_read_fields:
  "req_method demo_read = ''GET''" "pathname demo_read = js ''/images/'' @ demo_id"
  "url demo_read = js ''https://img.example/images/'' @ demo_id"
  "cf_connecting_ip demo_read = Some (js ''203.0.113.7'')"
  by (simp_all add: demo_read_def)

lemma demo_cfg_fields:
  "RATE_LIMIT_bound demo_cfg" "AI_QUOTA_bound demo_cfg"
  "ADMIN_TOKEN demo_cfg = Some (js ''secret'')"
  by (simp_all add: demo_cfg_def)

lemma trim_demo_url: "trim (js ''https://example.com/a.png'') = js ''https://example.com/a.png''"
  by (simp add: trim_def isTrimChar_def js_def)

lemma isHttpUrl_demo: "isHttpUrl (js ''https://example.com/a.png'')"
  by (simp add: isHttpUrl_def startsWith_def isLineTerminator_def js_def)

lemma isSafeUrl_demo: "isSafeUrl demo_cfg (js ''https://example.com/a.png'')"
  by (simp add: isSafeUrl_def demo_cfg_def demo_hostname_def isLoopback_def isLinkLocal_def
      isPrivateA_def isPrivateB_def isPrivateC_def startsWithCI_def toLowerAscii_def js_def)

lemma requireBearer_demo: "requireBearer demo_cfg demo_upload = None"
  by (simp add: requireBearer_def demo_cfg_def demo_upload_def js_def)

lemma mimeTypeOf_demo: "mimeTypeOf (Some (js ''image/png'')) = js ''image/png''"
  by (simp add: mimeTypeOf_def trim_def isTrimChar_def toLowerAscii_def js_def)

lemma allowed_demo: "js ''image/png'' \<in> set ALLOWED_TYPES"
  by (simp add: ALLOWED_TYPES_def)

lemma handleUpload_demo:
  "handleUpload demo_cfg demo_ok demo_upload (st initial) =
     (withCors (jsonResponse 201 (UploadJson demo_id (js ''/images/'' @ demo_id)
        (js ''Image uploaded '' @ [EM_DASH] @ js '' alt-text will generate on first access''))),
      demo_s1)"
  by (simp add: handleUpload_def requireBearer_demo Let_def trim_demo_url isHttpUrl_demo
      isSafeUrl_demo storeFromSource_def mimeTypeOf_demo allowed_demo MAX_IMAGE_BYTES_def
      insertImage_def selectBySourceUrl_def selectById_def initial_def demo_s1_def demo_row_def
      demo_object_def demo_ok_fields demo_upload_fields)

lemma js_ne: "js ''A cat'' \<noteq> []" "js ''1'' \<noteq> []"
  by (simp_all add: js_def)

lemma UUID_demo: "UUID_RE_test demo_id"
  by (simp add: UUID_RE_test_def demo_id_def js_def isHexDigit_def isDigit_def)

lemma imageIdOf_demo: "imageIdOf (js ''/images/'' @ demo_id) = demo_id"
  by (simp add: imageIdOf_def startsWith_def demo_id_def js_def)

lemma startsWith_demo: "startsWith (js ''/images/'' @ demo_id) (js ''/images/'')"
  by (simp add: startsWith_def js_def)

lemma pathname_demo_read_neq:
  "js ''/images/'' @ demo_id \<noteq> js ''/health''" "js ''/images/'' @ demo_id \<noteq> js ''/''"
  "js ''/images/'' @ demo_id \<noteq> js ''/favicon.ico''"
  "js ''/images/'' @ demo_id \<noteq> js ''/audit''" "js ''/images/'' @ demo_id \<noteq> js ''/upload''"
  by (simp_all add: js_def demo_id_def)

lemma pathname_upload_neq:
  "js ''/upload'' \<noteq> js ''/health''" "js ''/upload'' \<noteq> js ''/''"
  "js ''/upload'' \<noteq> js ''/favicon.ico''" "js ''/upload'' \<noteq> js ''/audit''"
  by (simp_all add: js_def)

lemmas rateLimit_eval =
  rateLimit_def isApiPath_def clientIp_def Let_def kvGet_def kvPut_def RATE_LIMIT_MAX_def
  RATE_LIMIT_TTL_def

lemma snd_fetch: "snd (fetch cfg ora req w) = snd (router cfg ora req w)"
  by (simp add: fetch_def split: prod.split option.split)

lemma fst_fetch:
  "fst (fetch cfg ora req w)
     = (case fst (router cfg ora req w) of
          None \<Rightarrow> jsonError (Msg (js ''Internal server error'')) 500
        | Some response \<Rightarrow> response)"
  by (simp add: fetch_def split: prod.split option.split)

lemma reach_router: "reachable cfg w \<Longrightarrow> reachable cfg (snd (router cfg ora req w))"
  using reach_request [of cfg w ora req] by (simp add: snd_fetch)

lemma imageResponse_demo:
  "imageResponse (js ''image/png'') [] demo_id [1, 2, 3] = Some demo_pending"
  "imageResponse (js ''image/png'') (js ''A cat'') demo_id [1, 2, 3] = Some demo_described"
  by (simp_all add: imageResponse_eq headerValue_def stripHttpWhitespace_def
      isHttpWhitespace_def demo_pending_def demo_described_def demo_id_def
      PENDING_ALT_TEXT_def EM_DASH_def js_def)

lemma enriched_demo: "enriched demo_pending (js ''A cat'') = Some demo_described"
  by (simp add: enriched_def headersSet_def headerValue_def stripHttpWhitespace_def
      isHttpWhitespace_def demo_pending_def demo_described_def js_def)

lemma demo_w1_eq:
  "demo_w1 = \<lparr>RATE_LIMIT = [(js ''203.0.113.7'', 0) \<mapsto> (1, 76000)], st = demo_s1, waitUntil = []\<rparr>"
  by (simp add: demo_w1_def snd_fetch router_def route_def rateLimit_eval demo_upload_fields demo_ok_fields
      demo_cfg_fields pathname_upload_neq handleUpload_demo)
    (simp add: initial_def)

lemma demo_w2_eq:
  "demo_w2 =
     \<lparr>RATE_LIMIT = [(js ''203.0.113.7'', 0) \<mapsto> (2, 76000)], st = demo_s1,
      waitUntil = [Generate demo_id [1, 2, 3] (js ''https://img.example/images/'' @ demo_id)
                     demo_pending]\<rparr>"
  by (simp add: demo_w2_def snd_fetch demo_w1_eq router_def route_def rateLimit_eval
      demo_read_fields demo_ok_fields
      demo_cfg_fields pathname_demo_read_neq startsWith_demo imageIdOf_demo UUID_demo
      handleImage_def storedAltText_def selectById_def imageResponse_demo
      demo_s1_def demo_row_def demo_object_def numeral_2_eq_2)

lemma demo_w3_eq:
  "st demo_w3 = demo_s3"
  "waitUntil demo_w3
     = [Inferring demo_id [1, 2, 3] (js ''https://img.example/images/'' @ demo_id) demo_pending]"
  by (simp_all add: demo_w3_def demo_w2_eq background_def acquireLock_def callModel_def
      demo_cfg_fields demo_ok_fields kvGet_def kvPut_def AI_DEDUPE_TTL_def demo_s3_def demo_s1_def)

lemma demo_w4_eq:
  "st demo_w4 = demo_s4"
  "waitUntil demo_w4
     = [Rebuild demo_id (js ''https://img.example/images/'' @ demo_id) demo_pending]"
  by (simp_all add: demo_w4_def background_def demo_w3_eq storeAltText_def demo_ok_fields
      sanitise_eval Let_def upsertAltText_def selectById_def demo_s4_def demo_s3_def demo_s1_def
      demo_row_def)

lemma demo_w5_eq:
  "st demo_w5 = demo_s5" "waitUntil demo_w5 = []"
  by (simp_all add: demo_w5_def background_def demo_w4_eq rebuildCache_def demo_ok_fields
      selectById_def demo_s5_def demo_s4_def demo_s3_def demo_s1_def demo_row_def enriched_demo
      js_ne)

lemma reachable_demo_w5: "reachable demo_cfg demo_w5"
  unfolding demo_w5_def demo_w4_def demo_w3_def demo_w2_def demo_w1_def
  by (intro reachable.intros)

lemma reachable_demo:
  "reachable demo_cfg demo_w1" "reachable demo_cfg demo_w2" "reachable demo_cfg demo_w3"
  "reachable demo_cfg demo_w4"
  unfolding demo_w4_def demo_w3_def demo_w2_def demo_w1_def
  by (intro reachable.intros)+


section \<open>Upload\<close>

lemma isSafeUrl_denied:
  assumes "URL_hostname cfg u = Some hostname"
    and "isLoopback hostname \<or> isLinkLocal hostname \<or> isPrivateA hostname
         \<or> isPrivateB hostname \<or> isPrivateC hostname"
  shows "\<not> isSafeUrl cfg u"
  using assms by (auto simp: isSafeUrl_def)

text \<open>
  Claim C7: when the hostname of the trimmed source URL passes one of the five denylist
  tests (loopback, link-local, the three private ranges; the tests read the hostname
  string), \<^verbatim>\<open>handleUpload\<close> changes no store and makes no call (the event log is part
  of the store, so no fetch, no blob write and no metadata write happen), whatever
  the request, and an authorised POST is answered with status 400.
\<close>

theorem upload_denylisted_host_rejected:
  assumes "json_url req = Some u" and "URL_hostname cfg (trim u) = Some hostname"
    and "isLoopback hostname \<or> isLinkLocal hostname \<or> isPrivateA hostname
         \<or> isPrivateB hostname \<or> isPrivateC hostname"
  shows "snd (handleUpload cfg ora req s) = s
    \<and> (req_method req = ''POST'' \<and> requireBearer cfg req = None \<longrightarrow>
         status (fst (handleUpload cfg ora req s)) = 400)"
proof -
  have "\<not> isSafeUrl cfg (trim u)" using assms(2,3) by (rule isSafeUrl_denied)
  then show ?thesis using assms(1)
    by (simp add: handleUpload_def Let_def split: option.split)
qed

theorem upload_denylisted_host_rejected_witness:
  "json_url demo_upload_loopback = Some (js ''http://127.0.0.1/admin'')
   \<and> URL_hostname demo_cfg (trim (js ''http://127.0.0.1/admin'')) = Some (js ''127.0.0.1'')
   \<and> isLoopback (js ''127.0.0.1'')
   \<and> req_method demo_upload_loopback = ''POST''
   \<and> requireBearer demo_cfg demo_upload_loopback = None
   \<and> snd (handleUpload demo_cfg demo_ok demo_upload_loopback demo_s1) = demo_s1
   \<and> status (fst (handleUpload demo_cfg demo_ok demo_upload_loopback demo_s1)) = 400"
proof -
  have h1: "json_url demo_upload_loopback = Some (js ''http://127.0.0.1/admin'')"
    by (simp add: demo_upload_loopback_def)
  have h2: "URL_hostname demo_cfg (trim (js ''http://127.0.0.1/admin'')) = Some (js ''127.0.0.1'')"
    by (simp add: demo_cfg_def demo_hostname_def trim_def isTrimChar_def js_def)
  have h3: "isLoopback (js ''127.0.0.1'')"
    by (simp add: isLoopback_def startsWithCI_def toLowerAscii_def js_def)
  have h4: "req_method demo_upload_loopback = ''POST''"
    by (simp add: demo_upload_loopback_def demo_upload_def)
  have h5: "requireBearer demo_cfg demo_upload_loopback = None"
    by (simp add: requireBearer_def demo_cfg_def demo_upload_loopback_def demo_upload_def js_def)
  from upload_denylisted_host_rejected [OF h1 h2 disjI1 [OF h3], of demo_ok demo_s1] h1 h2 h3 h4 h5
  show ?thesis by simp
qed

lemma storeFromSource_insert_fails:
  assumes "fetch_result ora = Fetched upstream ct b" and "200 \<le> upstream" and "upstream \<le> 299"
    and "mimeTypeOf ct \<in> set ALLOWED_TYPES"
    and "length b \<le> MAX_IMAGE_BYTES" and "r2_put_ok ora"
    and "\<not> d1_insert_ok ora \<or> insertImage (DB s) (randomUUID ora) u (now ora) = None"
  shows "fst (storeFromSource ora u s) = jsonError (Msg (js ''Database unavailable'')) 503
    \<and> events (snd (storeFromSource ora u s))
        = events s @ [Fetch u, R2Put (randomUUID ora), D1Insert (randomUUID ora) u,
                      R2Delete (randomUUID ora)]
    \<and> DB (snd (storeFromSource ora u s)) = DB s
    \<and> (r2_delete_ok ora \<longrightarrow> IMAGES (snd (storeFromSource ora u s)) (randomUUID ora) = None)
    \<and> (\<not> r2_delete_ok ora \<longrightarrow>
          IMAGES (snd (storeFromSource ora u s)) (randomUUID ora)
            = Some \<lparr>data = b, contentType = Some (mimeTypeOf ct), sourceUrl = u,
                    uploadedAt = now ora\<rparr>)"
  using assms by (auto simp: storeFromSource_def Let_def)

lemma handleUpload_to_store:
  assumes "req_method req = ''POST''" and "requireBearer cfg req = None"
    and "json_url req = Some u" and "isHttpUrl (trim u)" and "isSafeUrl cfg (trim u)"
    and "d1_select_ok ora" and "selectBySourceUrl (DB s) (trim u) = None"
  shows "handleUpload cfg ora req s = storeFromSource ora (trim u) s"
  using assms by (simp add: handleUpload_def Let_def)

text \<open>
  Claim C5: an upload that reaches the metadata insert (authorised, valid and new source
  URL, fetched with a success status, allowed type and size, blob written) and whose
  insert fails, by an error of D1 or by a constraint, is answered with status 503
  \<^verbatim>\<open>Database unavailable\<close> whether the compensating delete succeeds or not; the delete of
  the blob is the last call made; the table is unchanged; the blob is gone when the delete
  succeeds and stays, orphaned, when it fails.
\<close>

theorem upload_insert_failure_compensated:
  assumes "req_method req = ''POST''" and "requireBearer cfg req = None"
    and "json_url req = Some u" and "isHttpUrl (trim u)" and "isSafeUrl cfg (trim u)"
    and "d1_select_ok ora" and "selectBySourceUrl (DB s) (trim u) = None"
    and "fetch_result ora = Fetched upstream ct b" and "200 \<le> upstream" and "upstream \<le> 299"
    and "mimeTypeOf ct \<in> set ALLOWED_TYPES"
    and "length b \<le> MAX_IMAGE_BYTES" and "r2_put_ok ora"
    and "\<not> d1_insert_ok ora \<or> insertImage (DB s) (randomUUID ora) (trim u) (now ora) = None"
  shows "fst (handleUpload cfg ora req s) = jsonError (Msg (js ''Database unavailable'')) 503
    \<and> events (snd (handleUpload cfg ora req s))
        = events s @ [Fetch (trim u), R2Put (randomUUID ora),
                      D1Insert (randomUUID ora) (trim u), R2Delete (randomUUID ora)]
    \<and> DB (snd (handleUpload cfg ora req s)) = DB s
    \<and> (r2_delete_ok ora \<longrightarrow> IMAGES (snd (handleUpload cfg ora req s)) (randomUUID ora) = None)
    \<and> (\<not> r2_delete_ok ora \<longrightarrow>
          IMAGES (snd (handleUpload cfg ora req s)) (randomUUID ora)
            = Some \<lparr>data = b, contentType = Some (mimeTypeOf ct), sourceUrl = trim u,
                    uploadedAt = now ora\<rparr>)"
  unfolding handleUpload_to_store [OF assms(1-7)]
  by (rule storeFromSource_insert_fails [OF assms(8-14)])

theorem upload_insert_failure_compensated_witness:
  "req_method demo_upload = ''POST'' \<and> requireBearer demo_cfg demo_upload = None
   \<and> json_url demo_upload = Some (js ''https://example.com/a.png'')
   \<and> isHttpUrl (trim (js ''https://example.com/a.png''))
   \<and> isSafeUrl demo_cfg (trim (js ''https://example.com/a.png''))
   \<and> d1_select_ok demo_insert_fails
   \<and> selectBySourceUrl (DB (st initial)) (trim (js ''https://example.com/a.png'')) = None
   \<and> fetch_result demo_insert_fails = Fetched 200 (Some (js ''image/png'')) [1, 2, 3]
   \<and> mimeTypeOf (Some (js ''image/png'')) \<in> set ALLOWED_TYPES
   \<and> length [1, 2, 3 :: 8 word] \<le> MAX_IMAGE_BYTES
   \<and> r2_put_ok demo_insert_fails \<and> \<not> d1_insert_ok demo_insert_fails
   \<and> \<not> r2_delete_ok demo_insert_fails
   \<and> status (fst (handleUpload demo_cfg demo_insert_fails demo_upload (st initial))) = 503
   \<and> events (snd (handleUpload demo_cfg demo_insert_fails demo_upload (st initial)))
       = [Fetch (js ''https://example.com/a.png''), R2Put demo_id,
          D1Insert demo_id (js ''https://example.com/a.png''), R2Delete demo_id]
   \<and> DB (snd (handleUpload demo_cfg demo_insert_fails demo_upload (st initial))) = []
   \<and> IMAGES (snd (handleUpload demo_cfg demo_insert_fails demo_upload (st initial))) demo_id
       = Some demo_object"
proof -
  have f: "d1_select_ok demo_insert_fails" "r2_put_ok demo_insert_fails"
      "\<not> d1_insert_ok demo_insert_fails" "\<not> r2_delete_ok demo_insert_fails"
      "fetch_result demo_insert_fails = Fetched 200 (Some (js ''image/png'')) [1, 2, 3]"
      "randomUUID demo_insert_fails = demo_id" "now demo_insert_fails = 1000"
    by (simp_all add: demo_insert_fails_def demo_ok_def)
  have h4: "isHttpUrl (trim (js ''https://example.com/a.png''))"
    by (simp add: trim_demo_url isHttpUrl_demo)
  have h5: "isSafeUrl demo_cfg (trim (js ''https://example.com/a.png''))"
    by (simp add: trim_demo_url isSafeUrl_demo)
  have h7: "selectBySourceUrl (DB (st initial)) (trim (js ''https://example.com/a.png'')) = None"
    by (simp add: initial_def selectBySourceUrl_def)
  have h11: "mimeTypeOf (Some (js ''image/png'')) \<in> set ALLOWED_TYPES"
    by (simp add: mimeTypeOf_demo allowed_demo)
  have h12: "length [1, 2, 3 :: 8 word] \<le> MAX_IMAGE_BYTES"
    by (simp add: MAX_IMAGE_BYTES_def)
  have e: "events (st initial) = []" "DB (st initial) = []"
    by (simp_all add: initial_def)
  from upload_insert_failure_compensated [OF demo_upload_fields(1) requireBearer_demo
      demo_upload_fields(4) h4 h5 f(1) h7 f(5) _ _ h11 h12 f(2) disjI1 [OF f(3)]]
  show ?thesis
    using demo_upload_fields(1,4) requireBearer_demo h4 h5 h7 h11 h12 f e
    by (simp add: trim_demo_url mimeTypeOf_demo demo_object_def)
qed

lemma handleUpload_recorded_frame:
  assumes "json_url req = Some u" and "selectBySourceUrl (DB s) (trim u) = Some existing"
  shows "snd (handleUpload cfg ora req s) = s"
  using assms by (simp add: handleUpload_def Let_def split: option.split)

lemma handleUpload_recorded:
  assumes "req_method req = ''POST''" and "requireBearer cfg req = None"
    and "json_url req = Some u" and "isHttpUrl (trim u)" and "isSafeUrl cfg (trim u)"
    and "d1_select_ok ora" and "selectBySourceUrl (DB s) (trim u) = Some existing"
  shows "handleUpload cfg ora req s =
     (withCors (jsonResponse 200 (UploadJson (row_id existing) (js ''/images/'' @ row_id existing)
        (js ''Already uploaded''))), s)"
  using assms by (simp add: handleUpload_def Let_def)

lemma storeFromSource_201:
  assumes "storeFromSource ora u s = (r, s')" and "status r = 201"
  shows "\<exists>upstream ct b. fetch_result ora = Fetched upstream ct b
    \<and> insertImage (DB s) (randomUUID ora) u (now ora) = Some (DB s')
    \<and> r = withCors (jsonResponse 201 (UploadJson (randomUUID ora) (js ''/images/'' @ randomUUID ora)
           (js ''Image uploaded '' @ [EM_DASH] @ js '' alt-text will generate on first access'')))
    \<and> IMAGES s' = (IMAGES s)(randomUUID ora \<mapsto>
           \<lparr>data = b, contentType = Some (mimeTypeOf ct), sourceUrl = u, uploadedAt = now ora\<rparr>)
    \<and> events s' = events s @ [Fetch u, R2Put (randomUUID ora), D1Insert (randomUUID ora) u]
    \<and> AI_QUOTA s' = AI_QUOTA s \<and> cache s' = cache s"
  using assms
  by (auto simp: storeFromSource_def Let_def split: fetch_outcome.splits if_splits option.splits)

lemma handleUpload_201:
  assumes "handleUpload cfg ora req s = (r, s')" and "status r = 201"
  shows "\<exists>u. json_url req = Some u \<and> req_method req = ''POST'' \<and> requireBearer cfg req = None
     \<and> isHttpUrl (trim u) \<and> isSafeUrl cfg (trim u) \<and> selectBySourceUrl (DB s) (trim u) = None
     \<and> storeFromSource ora (trim u) s = (r, s')"
  using assms
  by (auto simp: handleUpload_def Let_def split: if_splits option.splits dest: requireBearer_status)

lemma insertImage_select:
  assumes "insertImage db i u t = Some db'"
  shows "selectBySourceUrl db' u
      = Some \<lparr>row_id = i, source_url = Some u, alt_text = None, created_at = t, updated_at = None\<rparr>
     \<and> db' = db @ [\<lparr>row_id = i, source_url = Some u, alt_text = None, created_at = t,
                    updated_at = None\<rparr>]"
  using assms
  by (auto simp: insertImage_def selectBySourceUrl_def find_append split: if_splits option.splits)


section \<open>What every reachable state satisfies\<close>

subsection \<open>The effect of a step on the stores\<close>

lemma acquireLock_frame:
  "DB (snd (acquireLock cfg ora i s)) = DB s"
  "cache (snd (acquireLock cfg ora i s)) = cache s"
  "events (snd (acquireLock cfg ora i s)) = events s"
  "IMAGES (snd (acquireLock cfg ora i s)) = IMAGES s"
  by (simp_all add: acquireLock_def split: option.split)

lemma callModel_frame:
  "DB (callModel i b s) = DB s" "cache (callModel i b s) = cache s"
  "IMAGES (callModel i b s) = IMAGES s" "AI_QUOTA (callModel i b s) = AI_QUOTA s"
  by (simp_all add: callModel_def)

lemma storeAltText_frame:
  "cache (storeAltText ora i s) = cache s" "IMAGES (storeAltText ora i s) = IMAGES s"
  "AI_QUOTA (storeAltText ora i s) = AI_QUOTA s"
  by (simp_all add: storeAltText_def Let_def split: ai_outcome.split)

lemma rebuildCache_frame:
  "DB (rebuildCache ora i k r s) = DB s" "events (rebuildCache ora i k r s) = events s"
  "IMAGES (rebuildCache ora i k r s) = IMAGES s" "AI_QUOTA (rebuildCache ora i k r s) = AI_QUOTA s"
  by (simp_all add: rebuildCache_def split: option.split)

lemma storeFromSource_frame:
  "cache (snd (storeFromSource ora u s)) = cache s"
  "AI_QUOTA (snd (storeFromSource ora u s)) = AI_QUOTA s"
  by (simp_all add: storeFromSource_def Let_def split: fetch_outcome.split option.split)

lemma handleUpload_frame:
  "cache (snd (handleUpload cfg ora req s)) = cache s"
  "AI_QUOTA (snd (handleUpload cfg ora req s)) = AI_QUOTA s"
  by (simp_all add: handleUpload_def Let_def storeFromSource_frame split: option.split)

text \<open>A request changes the stores only through \<^verbatim>\<open>handleUpload\<close>, and adds at most the
  task \<^verbatim>\<open>handleImage\<close> returns.\<close>

lemma router_effect:
  "(st (snd (router cfg ora req w)) = st w
      \<or> st (snd (router cfg ora req w)) = snd (handleUpload cfg ora req (st w)))
   \<and> (waitUntil (snd (router cfg ora req w)) = waitUntil w
      \<or> (\<exists>r t. handleImage ora (imageIdOf (pathname req)) req (st w) = Some (r, Some t)
            \<and> waitUntil (snd (router cfg ora req w)) = waitUntil w @ [t]))"
  by (auto simp: router_def route_def Let_def split: prod.splits option.splits)

lemma RATE_LIMIT_background: "RATE_LIMIT (background cfg ora i w) = RATE_LIMIT w"
  by (simp add: background_def split: prod.split option.split)

lemma snd_perform:
  "snd (perform cfg (Request ora req) w) = snd (fetch cfg ora req w)"
  "snd (perform cfg (Background ora i) w) = background cfg ora i w"
  "snd (perform cfg (Evict k) w) = evict k w"
  by (simp_all split: prod.split)

lemma perform_reachable: "reachable cfg w \<Longrightarrow> reachable cfg (snd (perform cfg x w))"
  by (cases x) (simp_all only: snd_perform reachable.intros)

lemma run_reachable: "reachable cfg w \<Longrightarrow> reachable cfg (snd (run cfg xs w))"
proof (induction xs arbitrary: w)
  case Nil
  then show ?case by simp
next
  case (Cons x xs)
  from Cons.IH [OF perform_reachable [OF Cons.prems, of x]] show ?case
    by (simp split: prod.split) (metis snd_conv)
qed

subsection \<open>Stored descriptions\<close>

lemma sanitisedRows_insertImage:
  "insertImage db i u t = Some db' \<Longrightarrow> sanitisedRows db \<Longrightarrow> sanitisedRows db'"
  by (auto simp: insertImage_def sanitisedRows_def split: if_splits)

lemma sanitisedRows_upsertAltText:
  "sanitisedRows db \<Longrightarrow> sanitiseAltText raw \<noteq> [] \<Longrightarrow>
   sanitisedRows (upsertAltText db i (sanitiseAltText raw) t)"
  by (auto simp: upsertAltText_def sanitisedRows_def)

lemma sanitisedRows_storeFromSource:
  "sanitisedRows (DB s) \<Longrightarrow> sanitisedRows (DB (snd (storeFromSource ora u s)))"
  by (auto simp: storeFromSource_def Let_def intro: sanitisedRows_insertImage
      split: fetch_outcome.split option.split)

lemma sanitisedRows_handleUpload:
  "sanitisedRows (DB s) \<Longrightarrow> sanitisedRows (DB (snd (handleUpload cfg ora req s)))"
  by (simp add: handleUpload_def Let_def sanitisedRows_storeFromSource split: option.split)

lemma sanitisedRows_storeAltText:
  "sanitisedRows (DB s) \<Longrightarrow> sanitisedRows (DB (storeAltText ora i s))"
  by (simp add: storeAltText_def Let_def sanitisedRows_upsertAltText split: ai_outcome.split)

lemma sanitisedRows_task_step:
  "sanitisedRows (DB s) \<Longrightarrow> sanitisedRows (DB (snd (task_step cfg ora t s)))"
  by (cases t)
    (simp_all add: acquireLock_frame callModel_frame rebuildCache_frame
      sanitisedRows_storeAltText split: prod.split bool.split,
     (metis acquireLock_frame(1) callModel_frame(1) snd_conv)+)

lemma sanitisedRows_background:
  "sanitisedRows (DB (st w)) \<Longrightarrow> sanitisedRows (DB (st (background cfg ora i w)))"
  using sanitisedRows_task_step [of "st w" cfg ora "waitUntil w ! i"]
  by (auto simp: background_def split: prod.split option.split)

lemma sanitisedRows_reachable: "reachable cfg w \<Longrightarrow> sanitisedRows (DB (st w))"
proof (induction rule: reachable.induct)
  case reach_initial
  show ?case by (simp add: initial_def sanitisedRows_def)
next
  case (reach_request w ora req)
  then show ?case
    using router_effect [of cfg ora req w] sanitisedRows_handleUpload [of "st w" cfg ora req]
    by (auto simp: snd_fetch)
next
  case (reach_background w ora i)
  then show ?case by (simp add: sanitisedRows_background)
next
  case (reach_evict w cacheKey)
  then show ?case by (simp add: evict_def)
qed


text \<open>
  Claim C9: the sanitiser truncates to 500 code units after escaping, so no output is
  longer; the step of the background task that writes to D1 writes the output of the
  sanitiser on some text or writes nothing; and in every reachable state every
  description stored in the table is a non-empty output of the sanitiser, of at most 500
  code units.
\<close>

theorem persisted_descriptions_sanitised:
  "(\<forall>x. length (sanitiseAltText x) = min 500 (length (escapeHtml (stripTags (trim x)))))
   \<and> (DB (storeAltText ora i s) = DB s
       \<or> (\<exists>raw. DB (storeAltText ora i s)
                   = upsertAltText (DB s) i (sanitiseAltText raw) (now ora)))
   \<and> (reachable cfg w \<and> r \<in> set (DB (st w)) \<and> alt_text r = Some a \<longrightarrow>
        a \<in> range sanitiseAltText \<and> a \<noteq> [] \<and> length a \<le> 500)"
proof (intro conjI impI allI)
  fix x
  show "length (sanitiseAltText x) = min 500 (length (escapeHtml (stripTags (trim x))))"
    by (simp add: sanitiseAltText_def ALT_TEXT_MAX_LEN_def min.commute)
next
  show "DB (storeAltText ora i s) = DB s
       \<or> (\<exists>raw. DB (storeAltText ora i s)
                   = upsertAltText (DB s) i (sanitiseAltText raw) (now ora))"
    by (auto simp: storeAltText_def Let_def split: ai_outcome.split)
next
  assume a: "reachable cfg w \<and> r \<in> set (DB (st w)) \<and> alt_text r = Some a"
  then have "sanitisedRows (DB (st w))" using sanitisedRows_reachable by blast
  with a have *: "a \<noteq> [] \<and> a \<in> range sanitiseAltText"
    by (force simp: sanitisedRows_def)
  then obtain raw where "a = sanitiseAltText raw" by blast
  then have "length a \<le> 500"
    using length_sanitiseAltText [of raw] by (simp add: ALT_TEXT_MAX_LEN_def)
  with * show "a \<in> range sanitiseAltText" "a \<noteq> []" "length a \<le> 500" by simp_all
qed

theorem persisted_descriptions_sanitised_witness:
  "reachable demo_cfg demo_w5
   \<and> demo_row\<lparr>alt_text := Some (js ''A cat''), updated_at := Some 1000\<rparr> \<in> set (DB (st demo_w5))
   \<and> alt_text (demo_row\<lparr>alt_text := Some (js ''A cat''), updated_at := Some 1000\<rparr>)
       = Some (js ''A cat'')
   \<and> js ''A cat'' \<in> range sanitiseAltText \<and> js ''A cat'' \<noteq> [] \<and> length (js ''A cat'') \<le> 500"
proof -
  have h2: "demo_row\<lparr>alt_text := Some (js ''A cat''), updated_at := Some 1000\<rparr>
      \<in> set (DB (st demo_w5))"
    by (simp add: demo_w5_eq demo_s5_def demo_s4_def)
  have h3: "alt_text (demo_row\<lparr>alt_text := Some (js ''A cat''), updated_at := Some 1000\<rparr>)
      = Some (js ''A cat'')"
    by simp
  from persisted_descriptions_sanitised [of undefined undefined
      "st demo_w5" demo_cfg demo_w5
      "demo_row\<lparr>alt_text := Some (js ''A cat''), updated_at := Some 1000\<rparr>" "js ''A cat''"]
    reachable_demo_w5 h2 h3
  show ?thesis by simp
qed


subsection \<open>Recorded source URLs\<close>

lemma trim_prefix: "\<exists>z. dropWhile isTrimChar s = trim s @ z"
proof -
  let ?d = "dropWhile isTrimChar s"
  have "rev (takeWhile isTrimChar (rev ?d) @ dropWhile isTrimChar (rev ?d))
      = rev (dropWhile isTrimChar (rev ?d)) @ rev (takeWhile isTrimChar (rev ?d))"
    by (rule rev_append)
  then have "rev (rev ?d) = trim s @ rev (takeWhile isTrimChar (rev ?d))"
    by (simp only: takeWhile_dropWhile_id trim_def)
  then have "?d = trim s @ rev (takeWhile isTrimChar (rev ?d))"
    by (simp only: rev_rev_ident)
  then show ?thesis by blast
qed

lemma trim_trim: "trim (trim s) = trim s"
proof -
  obtain z where z: "dropWhile isTrimChar s = trim s @ z" using trim_prefix by blast
  have front: "dropWhile isTrimChar (trim s) = trim s"
  proof (cases "trim s = []")
    case True
    then show ?thesis by simp
  next
    case False
    with z have "dropWhile isTrimChar s \<noteq> []" and "hd (trim s) = hd (dropWhile isTrimChar s)"
      by simp_all
    with hd_dropWhile [of isTrimChar s] have "\<not> isTrimChar (hd (trim s))" by simp
    with False show ?thesis by (simp add: dropWhile_eq_self_iff)
  qed
  have "trim (trim s) = rev (dropWhile isTrimChar (rev (trim s)))"
    by (simp add: trim_def [of "trim s"] front)
  also have "\<dots> = trim s" by (simp add: trim_def)
  finally show ?thesis .
qed

lemma selectBySourceUrl_Some:
  "selectBySourceUrl db u = Some r \<Longrightarrow> r \<in> set db \<and> source_url r = Some u"
  by (auto simp: selectBySourceUrl_def find_Some_iff)

lemma selectBySourceUrl_None:
  "selectBySourceUrl db u = None \<Longrightarrow> r \<in> set db \<Longrightarrow> source_url r \<noteq> Some u"
  by (auto simp: selectBySourceUrl_def find_None_iff)

lemma validSources_insertImage:
  assumes "insertImage db i (trim u) t = Some db'" and "isHttpUrl (trim u)"
    and "isSafeUrl cfg (trim u)" and "validSources cfg db"
  shows "validSources cfg db'"
  using assms by (auto simp: insertImage_def validSources_def trim_trim split: if_splits)

lemma uniqueSources_insertImage:
  assumes "insertImage db i u t = Some db'" and "uniqueSources db"
  shows "uniqueSources db'"
proof -
  from assms(1) have none: "selectBySourceUrl db u = None"
    and db': "db' = db @ [\<lparr>row_id = i, source_url = Some u, alt_text = None, created_at = t,
        updated_at = None\<rparr>]"
    by (auto simp: insertImage_def split: if_splits)
  from none have "\<forall>r \<in> set db. source_url r \<noteq> Some u"
    using selectBySourceUrl_None by blast
  with assms(2) show ?thesis
    unfolding uniqueSources_def db' by auto
qed

lemma validSources_upsertAltText:
  "validSources cfg db \<Longrightarrow> validSources cfg (upsertAltText db i a t)"
  by (auto simp: upsertAltText_def validSources_def)

lemma uniqueSources_upsertAltText:
  assumes "uniqueSources db"
  shows "uniqueSources (upsertAltText db i a t)"
proof (cases "selectById db i = None")
  case True
  define new where "new = \<lparr>row_id = i, source_url = None, alt_text = Some a, created_at = t,
      updated_at = Some t\<rparr>"
  have none: "source_url new = None" by (simp add: new_def)
  from True have eq: "set (upsertAltText db i a t) = insert new (set db)"
    by (simp add: upsertAltText_def new_def)
  show ?thesis
    unfolding uniqueSources_def eq
  proof (intro ballI impI)
    fix x y
    assume x: "x \<in> insert new (set db)" and y: "y \<in> insert new (set db)"
      and e: "source_url x \<noteq> None \<and> source_url x = source_url y"
    from e none have "x \<noteq> new" "y \<noteq> new" by auto
    with x y have "x \<in> set db" "y \<in> set db" by simp_all
    with assms e show "x = y" unfolding uniqueSources_def by blast
  qed
next
  case False
  define f :: "image_row \<Rightarrow> image_row"
    where "f = (\<lambda>r. if row_id r = i then r\<lparr>alt_text := Some a, updated_at := Some t\<rparr> else r)"
  have src: "source_url (f r) = source_url r" for r by (simp add: f_def)
  from False have "upsertAltText db i a t = map f db"
    unfolding upsertAltText_def f_def by (simp only: if_False)
  then have eq: "set (upsertAltText db i a t) = f ` set db"
    by (simp only: set_map)
  show ?thesis
    unfolding uniqueSources_def eq
  proof (intro ballI impI)
    fix x y
    assume "x \<in> f ` set db" and "y \<in> f ` set db"
      and e: "source_url x \<noteq> None \<and> source_url x = source_url y"
    then obtain r r' where r: "r \<in> set db" "x = f r" "r' \<in> set db" "y = f r'"
      by blast
    from e have "source_url r \<noteq> None \<and> source_url r = source_url r'"
      unfolding r(2,4) src .
    with assms r(1,3) have "r = r'" unfolding uniqueSources_def by blast
    with r show "x = y" by simp
  qed
qed

lemma handleUpload_DB:
  "DB (snd (handleUpload cfg ora req s)) = DB s
   \<or> (\<exists>u. isHttpUrl (trim u) \<and> isSafeUrl cfg (trim u)
         \<and> insertImage (DB s) (randomUUID ora) (trim u) (now ora)
             = Some (DB (snd (handleUpload cfg ora req s))))"
  by (auto simp: handleUpload_def storeFromSource_def Let_def
      split: option.split fetch_outcome.split)

lemma task_step_DB:
  "DB (snd (task_step cfg ora t s)) = DB s
   \<or> (\<exists>i a. DB (snd (task_step cfg ora t s)) = upsertAltText (DB s) i a (now ora))"
proof (cases t)
  case (Generate i b k r)
  then show ?thesis
    using acquireLock_frame(1) [of cfg ora i s]
    by (cases "acquireLock cfg ora i s") (auto simp: callModel_frame split: bool.split)
next
  case (Inferring i b k r)
  then show ?thesis by (auto simp: storeAltText_def Let_def split: ai_outcome.split)
qed (simp_all add: rebuildCache_frame)

lemma background_DB:
  "DB (st (background cfg ora i w)) = DB (st w)
   \<or> (\<exists>j a. DB (st (background cfg ora i w)) = upsertAltText (DB (st w)) j a (now ora))"
proof (cases "i < length (waitUntil w)")
  case False
  then show ?thesis by (simp add: background_def)
next
  case True
  obtain t' s' where ts: "task_step cfg ora (waitUntil w ! i) (st w) = (t', s')"
    by (cases "task_step cfg ora (waitUntil w ! i) (st w)")
  with True have "DB (st (background cfg ora i w)) = DB s'"
    by (cases t') (simp_all add: background_def)
  with task_step_DB [of cfg ora "waitUntil w ! i" "st w"] ts show ?thesis by simp
qed

lemma sources_reachable:
  "reachable cfg w \<Longrightarrow> validSources cfg (DB (st w)) \<and> uniqueSources (DB (st w))"
proof (induction rule: reachable.induct)
  case reach_initial
  show ?case by (simp add: initial_def validSources_def uniqueSources_def)
next
  case (reach_request w ora req)
  from router_effect [of cfg ora req w] handleUpload_DB [of cfg ora req "st w"]
  consider "DB (st (snd (fetch cfg ora req w))) = DB (st w)"
    | u where "isHttpUrl (trim u)" "isSafeUrl cfg (trim u)"
        "insertImage (DB (st w)) (randomUUID ora) (trim u) (now ora)
           = Some (DB (st (snd (fetch cfg ora req w))))"
    unfolding snd_fetch by auto
  then show ?case
  proof cases
    case 1
    with reach_request.IH show ?thesis by simp
  next
    case 2
    with reach_request.IH show ?thesis
      by (auto intro: validSources_insertImage uniqueSources_insertImage)
  qed
next
  case (reach_background w ora i)
  with background_DB [of cfg ora i w] show ?case
    by (auto intro: validSources_upsertAltText uniqueSources_upsertAltText)
next
  case (reach_evict w cacheKey)
  then show ?case by (simp add: evict_def)
qed

lemma recorded_source_found:
  assumes "reachable cfg w" and "r \<in> set (DB (st w))" and "source_url r = Some u"
  shows "trim u = u \<and> isHttpUrl u \<and> isSafeUrl cfg u
    \<and> selectBySourceUrl (DB (st w)) u = Some r"
proof -
  from sources_reachable [OF assms(1)]
  have v: "validSources cfg (DB (st w))" and q: "uniqueSources (DB (st w))" by simp_all
  from v assms(2,3) have ok: "trim u = u \<and> isHttpUrl u \<and> isSafeUrl cfg u"
    by (force simp: validSources_def)
  from assms(2,3) have "selectBySourceUrl (DB (st w)) u \<noteq> None"
    by (auto simp: selectBySourceUrl_def find_None_iff)
  then obtain r' where r': "selectBySourceUrl (DB (st w)) u = Some r'" by blast
  note selectBySourceUrl_Some [OF this]
  with q assms(2,3) have "r = r'" unfolding uniqueSources_def by force
  with ok r' show ?thesis by simp
qed

text \<open>
  Claim C4, in three parts. In every reachable state, for every source URL a row
  records, an authorised POST for that URL whose D1 lookup does not fail is answered
  with status 200 and the id of that row, and nothing changes. In any state, an upload
  whose trimmed source URL is recorded changes no store and makes no call (no fetch, no
  blob write, no insert), whatever else holds of the request. And when an upload was
  answered with 201, it added one row and one blob under the new id, and the same request
  again (with a lookup that does not fail) is answered with that same id and changes
  nothing.
\<close>

theorem upload_same_source_idempotent:
  "(reachable cfg w \<and> rec \<in> set (DB (st w)) \<and> source_url rec = Some u
      \<and> json_url req = Some u \<and> req_method req = ''POST'' \<and> requireBearer cfg req = None
      \<and> d1_select_ok ora \<longrightarrow>
        handleUpload cfg ora req (st w)
          = (withCors (jsonResponse 200
               (UploadJson (row_id rec) (js ''/images/'' @ row_id rec) (js ''Already uploaded''))),
             st w))
   \<and> (json_url req = Some v \<and> selectBySourceUrl (DB s) (trim v) = Some existing \<longrightarrow>
        snd (handleUpload cfg ora req s) = s)
   \<and> (handleUpload cfg ora1 req s0 = (r1, s1) \<and> status r1 = 201 \<and> d1_select_ok ora2 \<longrightarrow>
        (\<exists>u' obj.
           body r1 = UploadJson (randomUUID ora1) (js ''/images/'' @ randomUUID ora1)
                      (js ''Image uploaded '' @ [EM_DASH]
                       @ js '' alt-text will generate on first access'')
         \<and> DB s1 = DB s0 @ [\<lparr>row_id = randomUUID ora1, source_url = Some u', alt_text = None,
                              created_at = now ora1, updated_at = None\<rparr>]
         \<and> IMAGES s1 = (IMAGES s0)(randomUUID ora1 \<mapsto> obj)
         \<and> handleUpload cfg ora2 req s1
             = (withCors (jsonResponse 200
                  (UploadJson (randomUUID ora1) (js ''/images/'' @ randomUUID ora1)
                     (js ''Already uploaded''))), s1)))"
proof (intro conjI impI)
  assume a: "reachable cfg w \<and> rec \<in> set (DB (st w)) \<and> source_url rec = Some u
      \<and> json_url req = Some u \<and> req_method req = ''POST'' \<and> requireBearer cfg req = None
      \<and> d1_select_ok ora"
  then have "trim u = u \<and> isHttpUrl u \<and> isSafeUrl cfg u
      \<and> selectBySourceUrl (DB (st w)) u = Some rec"
    by (intro recorded_source_found) simp_all
  then have t: "u = trim u" and f: "isHttpUrl u" "isSafeUrl cfg u"
      "selectBySourceUrl (DB (st w)) u = Some rec"
    by simp_all
  from a have j: "json_url req = Some u" by simp
  from f have f': "isHttpUrl (trim u)" "isSafeUrl cfg (trim u)"
      "selectBySourceUrl (DB (st w)) (trim u) = Some rec"
    by (simp_all only: t [symmetric])
  from a have m: "req_method req = ''POST''" and b: "requireBearer cfg req = None"
    and d: "d1_select_ok ora"
    by simp_all
  show "handleUpload cfg ora req (st w)
          = (withCors (jsonResponse 200
               (UploadJson (row_id rec) (js ''/images/'' @ row_id rec) (js ''Already uploaded''))),
             st w)"
    by (rule handleUpload_recorded [OF m b j f'(1,2) d f'(3)])
next
  assume "json_url req = Some v \<and> selectBySourceUrl (DB s) (trim v) = Some existing"
  then show "snd (handleUpload cfg ora req s) = s"
    by (simp add: handleUpload_recorded_frame)
next
  assume a: "handleUpload cfg ora1 req s0 = (r1, s1) \<and> status r1 = 201 \<and> d1_select_ok ora2"
  then obtain u where u: "json_url req = Some u" "req_method req = ''POST''"
      "requireBearer cfg req = None" "isHttpUrl (trim u)" "isSafeUrl cfg (trim u)"
      "storeFromSource ora1 (trim u) s0 = (r1, s1)"
    using handleUpload_201 [of cfg ora1 req s0 r1 s1] by blast
  from storeFromSource_201 [OF u(6)] a obtain upstream ct b where
    f: "insertImage (DB s0) (randomUUID ora1) (trim u) (now ora1) = Some (DB s1)"
      "r1 = withCors (jsonResponse 201 (UploadJson (randomUUID ora1)
           (js ''/images/'' @ randomUUID ora1)
           (js ''Image uploaded '' @ [EM_DASH] @ js '' alt-text will generate on first access'')))"
      "IMAGES s1 = (IMAGES s0)(randomUUID ora1 \<mapsto> \<lparr>data = b, contentType = Some (mimeTypeOf ct),
           sourceUrl = trim u, uploadedAt = now ora1\<rparr>)"
    by blast
  note sel = insertImage_select [OF f(1)]
  have "handleUpload cfg ora2 req s1
      = (withCors (jsonResponse 200
           (UploadJson (randomUUID ora1) (js ''/images/'' @ randomUUID ora1)
              (js ''Already uploaded''))), s1)"
    using handleUpload_recorded [OF u(2,3,1,4,5) _ conjunct1 [OF sel], of ora2] a by simp
  with f sel show "\<exists>u' obj.
           body r1 = UploadJson (randomUUID ora1) (js ''/images/'' @ randomUUID ora1)
                      (js ''Image uploaded '' @ [EM_DASH]
                       @ js '' alt-text will generate on first access'')
         \<and> DB s1 = DB s0 @ [\<lparr>row_id = randomUUID ora1, source_url = Some u', alt_text = None,
                              created_at = now ora1, updated_at = None\<rparr>]
         \<and> IMAGES s1 = (IMAGES s0)(randomUUID ora1 \<mapsto> obj)
         \<and> handleUpload cfg ora2 req s1
             = (withCors (jsonResponse 200
                  (UploadJson (randomUUID ora1) (js ''/images/'' @ randomUUID ora1)
                     (js ''Already uploaded''))), s1)"
    by auto
qed

theorem upload_same_source_idempotent_witness:
  "reachable demo_cfg demo_w1 \<and> demo_row \<in> set (DB (st demo_w1))
   \<and> source_url demo_row = Some (js ''https://example.com/a.png'')
   \<and> json_url demo_upload = Some (js ''https://example.com/a.png'')
   \<and> req_method demo_upload = ''POST'' \<and> requireBearer demo_cfg demo_upload = None
   \<and> d1_select_ok demo_ok
   \<and> selectBySourceUrl (DB (st demo_w1)) (trim (js ''https://example.com/a.png'')) = Some demo_row
   \<and> handleUpload demo_cfg demo_ok demo_upload (st initial)
     = (withCors (jsonResponse 201 (UploadJson demo_id (js ''/images/'' @ demo_id)
          (js ''Image uploaded '' @ [EM_DASH] @ js '' alt-text will generate on first access''))),
        st demo_w1)
   \<and> handleUpload demo_cfg demo_ok demo_upload (st demo_w1)
     = (withCors (jsonResponse 200 (UploadJson demo_id (js ''/images/'' @ demo_id)
          (js ''Already uploaded''))), st demo_w1)
   \<and> DB (st demo_w1) = DB (st initial) @ [demo_row]"
proof -
  let ?r = "withCors (jsonResponse 201 (UploadJson demo_id (js ''/images/'' @ demo_id)
          (js ''Image uploaded '' @ [EM_DASH] @ js '' alt-text will generate on first access'')))"
  have s1: "st demo_w1 = demo_s1" by (simp add: demo_w1_eq)
  have mem: "demo_row \<in> set (DB (st demo_w1))" by (simp add: s1 demo_s1_def)
  have src: "source_url demo_row = Some (js ''https://example.com/a.png'')"
    by (simp add: demo_row_def)
  have sel: "selectBySourceUrl (DB (st demo_w1)) (trim (js ''https://example.com/a.png''))
      = Some demo_row"
    by (simp add: s1 trim_demo_url demo_s1_def selectBySourceUrl_def demo_row_def)
  have first: "handleUpload demo_cfg demo_ok demo_upload (st initial) = (?r, st demo_w1)"
    by (simp add: handleUpload_demo s1)
  have db: "DB (st demo_w1) = DB (st initial) @ [demo_row]"
    by (simp add: s1 demo_s1_def initial_def)
  have rid: "row_id demo_row = demo_id" by (simp add: demo_row_def)
  from upload_same_source_idempotent [of demo_cfg demo_w1 demo_row
      "js ''https://example.com/a.png''" demo_upload demo_ok
      "js ''https://example.com/a.png''" "st demo_w1" demo_row demo_ok "st initial" ?r
      "st demo_w1" demo_ok]
    reachable_demo(1) mem src demo_upload_fields(1,4) requireBearer_demo demo_ok_fields(6)
  have "handleUpload demo_cfg demo_ok demo_upload (st demo_w1)
     = (withCors (jsonResponse 200 (UploadJson demo_id (js ''/images/'' @ demo_id)
          (js ''Already uploaded''))), st demo_w1)"
    by (simp add: rid)
  with reachable_demo(1) mem src demo_upload_fields(1,4) requireBearer_demo demo_ok_fields(6)
    sel first db
  show ?thesis by simp
qed


subsection \<open>Stored blobs\<close>

lemma allowedBlobs_storeFromSource:
  "allowedBlobs (IMAGES s) \<Longrightarrow> allowedBlobs (IMAGES (snd (storeFromSource ora u s)))"
  by (auto simp: allowedBlobs_def storeFromSource_def Let_def
      split: fetch_outcome.split option.split if_splits)

lemma allowedBlobs_handleUpload:
  "allowedBlobs (IMAGES s) \<Longrightarrow> allowedBlobs (IMAGES (snd (handleUpload cfg ora req s)))"
  by (simp add: handleUpload_def Let_def allowedBlobs_storeFromSource split: option.split)

lemma task_step_IMAGES: "IMAGES (snd (task_step cfg ora t s)) = IMAGES s"
proof (cases t)
  case (Generate i b k r)
  then show ?thesis
    using acquireLock_frame(4) [of cfg ora i s]
    by (cases "acquireLock cfg ora i s") (auto simp: callModel_frame split: bool.split)
qed (simp_all add: storeAltText_frame rebuildCache_frame)

lemma background_IMAGES: "IMAGES (st (background cfg ora i w)) = IMAGES (st w)"
proof (cases "i < length (waitUntil w)")
  case False
  then show ?thesis by (simp add: background_def)
next
  case True
  obtain t' s' where ts: "task_step cfg ora (waitUntil w ! i) (st w) = (t', s')"
    by (cases "task_step cfg ora (waitUntil w ! i) (st w)")
  with True have "IMAGES (st (background cfg ora i w)) = IMAGES s'"
    by (cases t') (simp_all add: background_def)
  with task_step_IMAGES [of cfg ora "waitUntil w ! i" "st w"] ts show ?thesis by simp
qed

lemma allowedBlobs_reachable: "reachable cfg w \<Longrightarrow> allowedBlobs (IMAGES (st w))"
proof (induction rule: reachable.induct)
  case reach_initial
  show ?case by (simp add: initial_def allowedBlobs_def)
next
  case (reach_request w ora req)
  then show ?case
    using router_effect [of cfg ora req w] allowedBlobs_handleUpload [of "st w" cfg ora req]
    by (auto simp: snd_fetch)
next
  case (reach_background w ora i)
  then show ?case by (simp add: background_IMAGES)
next
  case (reach_evict w cacheKey)
  then show ?case by (simp add: evict_def)
qed

text \<open>In a reachable state a blob and a well-formed id give header values that
  \<^verbatim>\<open>Headers\<close> accepts, so a read of an image without description does not throw.\<close>

lemma contentType_accepted:
  assumes "reachable cfg w" and "IMAGES (st w) i = Some obj"
  shows "\<exists>t. contentType obj = Some t \<and> headerValue t = Some t"
proof -
  from allowedBlobs_reachable [OF assms(1)] assms(2)
  obtain t where "t \<in> set ALLOWED_TYPES" "contentType obj = Some t"
    unfolding allowedBlobs_def by blast
  then show ?thesis by (simp add: headerValue_allowed)
qed

subsection \<open>Cached responses\<close>

lemma map_of_setHeader:
  "map_of (setHeader k v hs) k' = (if k' = k then Some v else map_of hs k')"
  by (induction hs) auto

lemma enriched_fields:
  assumes "enriched r a = Some e"
  shows "getHeader ''X-Alt-Text'' e = Some (stripHttpWhitespace a)"
    and "headerValue a = Some (stripHttpWhitespace a)"
    and "getHeader ''Cache-Control'' e = Some CACHE_CONTROL_READY"
    and "status e = 200" and "body e = body r"
    and "h \<noteq> ''X-Alt-Text'' \<and> h \<noteq> ''Cache-Control'' \<longrightarrow> getHeader h e = getHeader h r"
  using assms
  by (auto simp: enriched_def headersSet_def getHeader_def map_of_setHeader
      split: option.splits dest: headerValue_Some)

lemma enriched_None: "(enriched r a = None) = (headerValue a = None)"
  by (simp add: enriched_def headersSet_def split: option.split)










section \<open>The headers of a served image\<close>

lemma demo_w3_RATE_LIMIT: "RATE_LIMIT demo_w3 = [(js ''203.0.113.7'', 0) \<mapsto> (2, 76000)]"
  by (simp add: demo_w3_def RATE_LIMIT_background demo_w2_eq)

lemma handleImage_demo_s3:
  "handleImage demo_ok demo_id demo_read demo_s3
     = Some (demo_pending, Some (Generate demo_id [1, 2, 3] (url demo_read) demo_pending))"
  by (simp add: handleImage_def demo_read_fields(1) demo_ok_fields storedAltText_def
      selectById_def demo_s3_def demo_s1_def demo_row_def demo_object_def imageResponse_demo)













subsection \<open>A description that \<^verbatim>\<open>Headers\<close> refuses\<close>

text \<open>
  The model answers the first task of the scenario with two lines. The sanitiser keeps
  the line feed and the text is stored. A read that finds it throws in
  \<^verbatim>\<open>new Headers\<close>: the entry point answers with status 500 and nothing is handed to
  \<^verbatim>\<open>ctx.waitUntil\<close>. The same read with the D1 read failing is answered with the
  pending response.
\<close>

lemma demo_two_lines_refused: "demo_two_lines \<noteq> []" "headerValue demo_two_lines = None"
  by (simp_all add: demo_two_lines_def headerValue_def stripHttpWhitespace_def
      isHttpWhitespace_def js_def)

lemma demo_u4_eq:
  "st demo_u4
     = demo_s3\<lparr>DB := [demo_row\<lparr>alt_text := Some demo_two_lines, updated_at := Some 1000\<rparr>],
              events := events demo_s3 @ [D1Upsert demo_id demo_two_lines]\<rparr>"
  "waitUntil demo_u4 = [Rebuild demo_id (url demo_read) demo_pending]"
  "RATE_LIMIT demo_u4 = [(js ''203.0.113.7'', 0) \<mapsto> (2, 76000)]"
proof -
  have s: "sanitiseAltText (trim demo_two_lines) = demo_two_lines"
    by (simp add: sanitise_eval demo_two_lines_def)
  show "st demo_u4
     = demo_s3\<lparr>DB := [demo_row\<lparr>alt_text := Some demo_two_lines, updated_at := Some 1000\<rparr>],
              events := events demo_s3 @ [D1Upsert demo_id demo_two_lines]\<rparr>"
    using demo_two_lines_refused(1)
    by (simp add: demo_u4_def background_def demo_w3_eq storeAltText_def
        demo_model_two_lines_def demo_ok_fields s Let_def upsertAltText_def selectById_def
        demo_s3_def demo_s1_def demo_row_def)
  show "waitUntil demo_u4 = [Rebuild demo_id (url demo_read) demo_pending]"
    by (simp add: demo_u4_def background_def demo_w3_eq demo_read_fields)
  show "RATE_LIMIT demo_u4 = [(js ''203.0.113.7'', 0) \<mapsto> (2, 76000)]"
    by (simp add: demo_u4_def RATE_LIMIT_background demo_w3_RATE_LIMIT)
qed

lemma storedAltText_demo_u4: "storedAltText demo_ok (st demo_u4) demo_id = demo_two_lines"
  by (simp add: storedAltText_def demo_ok_fields demo_u4_eq selectById_def demo_row_def)

lemma reachable_demo_u4: "reachable demo_cfg demo_u4"
  unfolding demo_u4_def by (intro reachable.intros reachable_demo(3))

lemma handleImage_demo_u4:
  "handleImage demo_ok demo_id demo_read (st demo_u4) = None"
  "handleImage (demo_ok\<lparr>d1_select_ok := False\<rparr>) demo_id demo_read (st demo_u4)
     = Some (demo_pending, Some (Generate demo_id [1, 2, 3] (url demo_read) demo_pending))"
proof -
  have miss: "cache (st demo_u4) (url demo_read) = None"
    by (simp add: demo_u4_eq demo_s3_def demo_s1_def)
  have img: "IMAGES (st demo_u4) demo_id = Some demo_object"
    by (simp add: demo_u4_eq demo_s3_def demo_s1_def)
  have none: "imageResponse (js ''image/png'') demo_two_lines demo_id [1, 2, 3] = None"
    using demo_two_lines_refused by (simp add: imageResponse_eq split: option.split)
  show "handleImage demo_ok demo_id demo_read (st demo_u4) = None"
    by (simp add: handleImage_def demo_read_fields(1) miss img demo_ok_fields
        storedAltText_demo_u4 demo_object_def none)
  show "handleImage (demo_ok\<lparr>d1_select_ok := False\<rparr>) demo_id demo_read (st demo_u4)
     = Some (demo_pending, Some (Generate demo_id [1, 2, 3] (url demo_read) demo_pending))"
    by (simp add: handleImage_def demo_read_fields(1) miss img demo_ok_fields storedAltText_def
        demo_object_def imageResponse_demo)
qed

lemma fetch_demo_u4:
  "fst (fetch demo_cfg demo_ok demo_read demo_u4)
     = jsonError (Msg (js ''Internal server error'')) 500"
  "st (snd (fetch demo_cfg demo_ok demo_read demo_u4)) = st demo_u4"
  "waitUntil (snd (fetch demo_cfg demo_ok demo_read demo_u4)) = waitUntil demo_u4"
  by (simp_all add: fetch_def router_def route_def rateLimit_eval demo_read_fields(1,2,4)
      demo_ok_fields demo_cfg_fields pathname_demo_read_neq startsWith_demo imageIdOf_demo
      UUID_demo demo_u4_eq(3) handleImage_demo_u4)


section \<open>Image serve\<close>

lemma handleImage_pending:
  assumes "req_method req = ''GET''" and "cache s (url req) = None" and "r2_get_ok ora"
    and "IMAGES s i = Some obj" and "storedAltText ora s i = []"
    and "imageResponse
           (case contentType obj of None \<Rightarrow> js ''application/octet-stream'' | Some c \<Rightarrow> c)
           [] i (data obj) = Some r"
  shows "handleImage ora i req s = Some (r, Some (Generate i (data obj) (url req) r))"
  using assms by (simp add: handleImage_def Let_def)

lemma handleImage_pending_reachable:
  assumes "reachable cfg w" and "UUID_RE_test i" and "req_method req = ''GET''"
    and "cache (st w) (url req) = None" and "r2_get_ok ora"
    and "IMAGES (st w) i = Some obj" and "storedAltText ora (st w) i = []"
  shows "\<exists>r. handleImage ora i req (st w) = Some (r, Some (Generate i (data obj) (url req) r))
    \<and> status r = 200 \<and> body r = ImageBytes (data obj)
    \<and> getHeader ''X-Alt-Text'' r = Some PENDING_ALT_TEXT
    \<and> getHeader ''Cache-Control'' r = Some CACHE_CONTROL_PENDING"
proof -
  from contentType_accepted [OF assms(1,6)]
  obtain t where t: "contentType obj = Some t" "headerValue t = Some t" by blast
  from imageResponse_pending [OF t(2) UUID_headerValue [OF assms(2)]]
  obtain r where r: "imageResponse t [] i (data obj) = Some r" by blast
  from r t(1) have "imageResponse
      (case contentType obj of None \<Rightarrow> js ''application/octet-stream'' | Some c \<Rightarrow> c)
      [] i (data obj) = Some r"
    by simp
  from handleImage_pending [OF assms(3-5) assms(6,7) this] imageResponse_fields(1-4) [OF r]
  show ?thesis by simp
qed

text \<open>
  Claim C6: in every reachable state, a GET for a well-formed id that misses the cache,
  with R2 answering and the blob present, and with the D1 read failing, is answered with
  status 200, the bytes of the blob, the pending placeholder as description and the
  short-lived directive, and starts \<^verbatim>\<open>generateAndCache\<close>. The description is treated
  as absent: the answer and the task are those of the same read with D1 answering on a
  table without rows.
\<close>

theorem image_served_when_metadata_fails:
  assumes "reachable cfg w" and "UUID_RE_test imageId" and "req_method req = ''GET''"
    and "cache (st w) (url req) = None" and "r2_get_ok ora"
    and "IMAGES (st w) imageId = Some obj" and "\<not> d1_select_ok ora"
  shows "\<exists>r. handleImage ora imageId req (st w)
            = Some (r, Some (Generate imageId (data obj) (url req) r))
    \<and> status r = 200 \<and> body r = ImageBytes (data obj)
    \<and> getHeader ''X-Alt-Text'' r = Some PENDING_ALT_TEXT
    \<and> getHeader ''Cache-Control'' r = Some CACHE_CONTROL_PENDING
    \<and> handleImage (ora\<lparr>d1_select_ok := True\<rparr>) imageId req ((st w)\<lparr>DB := []\<rparr>)
        = Some (r, Some (Generate imageId (data obj) (url req) r))"
proof -
  from assms(7) have alt: "storedAltText ora (st w) imageId = []"
    by (simp add: storedAltText_def)
  from handleImage_pending_reachable [OF assms(1-6) alt]
  obtain r where r: "handleImage ora imageId req (st w)
        = Some (r, Some (Generate imageId (data obj) (url req) r))"
      "status r = 200" "body r = ImageBytes (data obj)"
      "getHeader ''X-Alt-Text'' r = Some PENDING_ALT_TEXT"
      "getHeader ''Cache-Control'' r = Some CACHE_CONTROL_PENDING"
    by blast
  have alt': "storedAltText (ora\<lparr>d1_select_ok := True\<rparr>) ((st w)\<lparr>DB := []\<rparr>) imageId = []"
    by (simp add: storedAltText_def selectById_def)
  have "handleImage (ora\<lparr>d1_select_ok := True\<rparr>) imageId req ((st w)\<lparr>DB := []\<rparr>)
      = handleImage ora imageId req (st w)"
    using assms(3-6) by (simp add: handleImage_def alt alt' Let_def)
  with r show ?thesis by simp
qed

theorem image_served_when_metadata_fails_witness:
  "reachable demo_cfg demo_w4 \<and> UUID_RE_test demo_id \<and> req_method demo_read = ''GET''
   \<and> cache (st demo_w4) (url demo_read) = None \<and> r2_get_ok demo_d1_down
   \<and> IMAGES (st demo_w4) demo_id = Some demo_object \<and> \<not> d1_select_ok demo_d1_down
   \<and> selectById (DB (st demo_w4)) demo_id
       = Some (demo_row\<lparr>alt_text := Some (js ''A cat''), updated_at := Some 1000\<rparr>)
   \<and> handleImage demo_d1_down demo_id demo_read (st demo_w4)
       = Some (demo_pending, Some (Generate demo_id [1, 2, 3] (url demo_read) demo_pending))
   \<and> status demo_pending = 200 \<and> body demo_pending = ImageBytes [1, 2, 3]
   \<and> getHeader ''X-Alt-Text'' demo_pending = Some PENDING_ALT_TEXT
   \<and> getHeader ''Cache-Control'' demo_pending = Some CACHE_CONTROL_PENDING"
proof -
  have miss: "cache (st demo_w4) (url demo_read) = None"
    by (simp add: demo_w4_eq demo_s4_def demo_s3_def demo_s1_def)
  have r2: "r2_get_ok demo_d1_down" and d1: "\<not> d1_select_ok demo_d1_down"
    by (simp_all add: demo_d1_down_def demo_ok_def)
  have img: "IMAGES (st demo_w4) demo_id = Some demo_object"
    by (simp add: demo_w4_eq demo_s4_def demo_s3_def demo_s1_def)
  have row: "selectById (DB (st demo_w4)) demo_id
       = Some (demo_row\<lparr>alt_text := Some (js ''A cat''), updated_at := Some 1000\<rparr>)"
    by (simp add: demo_w4_eq demo_s4_def selectById_def demo_row_def)
  have h: "handleImage demo_d1_down demo_id demo_read (st demo_w4)
       = Some (demo_pending, Some (Generate demo_id [1, 2, 3] (url demo_read) demo_pending))"
    by (simp add: handleImage_def demo_read_fields(1) miss img r2 d1 storedAltText_def
        demo_object_def imageResponse_demo)
  from image_served_when_metadata_fails
    [OF reachable_demo(4) UUID_demo demo_read_fields(1) miss r2 img d1]
  have "status demo_pending = 200 \<and> body demo_pending = ImageBytes [1, 2, 3]
      \<and> getHeader ''X-Alt-Text'' demo_pending = Some PENDING_ALT_TEXT
      \<and> getHeader ''Cache-Control'' demo_pending = Some CACHE_CONTROL_PENDING"
    by (simp add: h demo_object_def)
  with reachable_demo(4) UUID_demo demo_read_fields(1) miss r2 img d1 row h
  show ?thesis by simp
qed


section \<open>The background task and the cache\<close>

lemma router_cache: "cache (st (snd (router cfg ora req w))) = cache (st w)"
  using router_effect [of cfg ora req w] handleUpload_frame(1) [of cfg ora req "st w"]
  by auto

lemma generateAndCache_steps:
  "generateAndCache cfg ora i b k r s = snd (run_task cfg [ora, ora, ora] (Generate i b k r) s)"
  by (cases "acquireLock cfg ora i s")
    (simp add: generateAndCache_def generateAltTextOnce_def split: bool.split)

lemma rebuildCache_eq:
  "rebuildCache ora i k r s
     = s\<lparr>cache := (cache s)(k \<mapsto>
          (if storedAltText ora s i \<noteq> []
           then (case enriched r (storedAltText ora s i) of None \<Rightarrow> r | Some e \<Rightarrow> e)
           else r))\<rparr>"
  by (simp add: rebuildCache_def storedAltText_def split: option.split)

lemma acquireLock_held:
  assumes "AI_QUOTA_bound cfg" and "lock_get_ok ora"
    and "kvGet (AI_QUOTA s) i (now ora) = Some v" and "v \<noteq> []"
  shows "acquireLock cfg ora i s = (False, s)"
  using assms by (simp add: acquireLock_def)

text \<open>
  Claim C1, as the specification states it: while the task started by a read of an image
  without description is running, the pending response is in the cache, so an identical
  request before the task finishes is a cache hit. It fails. After the upload and a first
  read, with the task of that read waiting for the model, the cache holds nothing for
  the request, and the identical request is answered from the stores and starts a second
  \<^verbatim>\<open>generateAndCache\<close>.
\<close>

theorem pending_response_not_cached_during_inference:
  "reachable demo_cfg demo_w3
   \<and> waitUntil demo_w3 = [Inferring demo_id [1, 2, 3] (url demo_read) demo_pending]
   \<and> cache (st demo_w3) (url demo_read) = None
   \<and> handleImage demo_ok demo_id demo_read (st demo_w3)
       = Some (demo_pending, Some (Generate demo_id [1, 2, 3] (url demo_read) demo_pending))"
proof -
  have miss: "cache (st demo_w3) (url demo_read) = None"
    by (simp add: demo_w3_eq demo_s3_def demo_s1_def)
  have "handleImage demo_ok demo_id demo_read (st demo_w3)
       = Some (demo_pending, Some (Generate demo_id [1, 2, 3] (url demo_read) demo_pending))"
    by (simp add: demo_w3_eq handleImage_demo_s3)
  with reachable_demo(3) miss show ?thesis
    by (simp add: demo_w3_eq demo_read_fields)
qed

text \<open>
  Claim C1, amended: a read of an image without description returns the pending response
  and hands \<^verbatim>\<open>generateAndCache\<close> to \<^verbatim>\<open>ctx.waitUntil\<close>. No request writes the cache.
  \<^verbatim>\<open>generateAndCache\<close> writes it once, in its last step, after
  \<^verbatim>\<open>generateAltTextOnce\<close> has returned. If the re-read of the row finds a description
  and \<^verbatim>\<open>Headers\<close> accepts it, the entry is the response with that description, its
  leading and trailing HTTP white space removed, and the long-lived directive; if there
  is no description, or the re-read fails, or \<^verbatim>\<open>Headers\<close> refuses the description (it
  holds NUL, LF or CR inside), the entry is the pending response as it was handed in.
  The other headers, the status and the body of the entry are those of the pending
  response in both cases.
  The steps before leave the cache as it was. A task that finds the dedupe lock held
  goes to that last step at once, so it is the task of a second reader that puts the
  pending response into the cache while the first task waits for the model.
\<close>

theorem cache_written_after_generateAltTextOnce:
  "cache (st (snd (fetch cfg ora req w))) = cache (st w)
   \<and> cache (snd (task_step cfg ora (Generate i b k r) s)) = cache s
   \<and> cache (snd (task_step cfg ora (Inferring i b k r) s)) = cache s
   \<and> cache (snd (task_step cfg ora (Rebuild i k r) s))
       = (cache s)(k \<mapsto>
           (if storedAltText ora s i \<noteq> []
            then (case enriched r (storedAltText ora s i) of None \<Rightarrow> r | Some e \<Rightarrow> e)
            else r))
   \<and> (enriched r a = None) = (headerValue a = None)
   \<and> (enriched r a = Some e \<longrightarrow>
         status e = 200 \<and> body e = body r
         \<and> getHeader ''X-Alt-Text'' e = Some (stripHttpWhitespace a)
         \<and> getHeader ''Cache-Control'' e = Some CACHE_CONTROL_READY
         \<and> (\<forall>h. h \<noteq> ''X-Alt-Text'' \<and> h \<noteq> ''Cache-Control'' \<longrightarrow>
                getHeader h e = getHeader h r))
   \<and> generateAndCache cfg ora i b k r s
       = snd (run_task cfg [ora, ora, ora] (Generate i b k r) s)
   \<and> (reachable cfg w1 \<and> UUID_RE_test i1 \<and> req_method req1 = ''GET''
       \<and> cache (st w1) (url req1) = None \<and> r2_get_ok ora1
       \<and> IMAGES (st w1) i1 = Some obj \<and> storedAltText ora1 (st w1) i1 = [] \<longrightarrow>
         (\<exists>r1. handleImage ora1 i1 req1 (st w1)
                  = Some (r1, Some (Generate i1 (data obj) (url req1) r1))
               \<and> getHeader ''X-Alt-Text'' r1 = Some PENDING_ALT_TEXT
               \<and> getHeader ''Cache-Control'' r1 = Some CACHE_CONTROL_PENDING))
   \<and> (AI_QUOTA_bound cfg \<and> lock_get_ok ora \<and> kvGet (AI_QUOTA s) i (now ora) = Some v
       \<and> v \<noteq> [] \<longrightarrow>
         task_step cfg ora (Generate i b k r) s = (Some (Rebuild i k r), s))"
proof (intro conjI impI)
  show "cache (st (snd (fetch cfg ora req w))) = cache (st w)"
    by (simp add: snd_fetch router_cache)
  show "cache (snd (task_step cfg ora (Generate i b k r) s)) = cache s"
    using acquireLock_frame(2) [of cfg ora i s]
    by (cases "acquireLock cfg ora i s") (auto simp: callModel_frame split: bool.split)
  show "cache (snd (task_step cfg ora (Inferring i b k r) s)) = cache s"
    by (simp add: storeAltText_frame)
  show "cache (snd (task_step cfg ora (Rebuild i k r) s))
       = (cache s)(k \<mapsto>
           (if storedAltText ora s i \<noteq> []
            then (case enriched r (storedAltText ora s i) of None \<Rightarrow> r | Some e \<Rightarrow> e)
            else r))"
    by (simp add: rebuildCache_eq)
  show "(enriched r a = None) = (headerValue a = None)"
    by (rule enriched_None)
  show "generateAndCache cfg ora i b k r s
       = snd (run_task cfg [ora, ora, ora] (Generate i b k r) s)"
    by (rule generateAndCache_steps)
next
  assume e: "enriched r a = Some e"
  from enriched_fields [OF e]
  show "status e = 200" "body e = body r"
    "getHeader ''X-Alt-Text'' e = Some (stripHttpWhitespace a)"
    "getHeader ''Cache-Control'' e = Some CACHE_CONTROL_READY"
    "\<forall>h. h \<noteq> ''X-Alt-Text'' \<and> h \<noteq> ''Cache-Control'' \<longrightarrow>
          getHeader h e = getHeader h r"
    by simp_all
next
  assume a: "reachable cfg w1 \<and> UUID_RE_test i1 \<and> req_method req1 = ''GET''
       \<and> cache (st w1) (url req1) = None \<and> r2_get_ok ora1
       \<and> IMAGES (st w1) i1 = Some obj \<and> storedAltText ora1 (st w1) i1 = []"
  then have "\<exists>r1. handleImage ora1 i1 req1 (st w1)
                  = Some (r1, Some (Generate i1 (data obj) (url req1) r1))
    \<and> status r1 = 200 \<and> body r1 = ImageBytes (data obj)
    \<and> getHeader ''X-Alt-Text'' r1 = Some PENDING_ALT_TEXT
    \<and> getHeader ''Cache-Control'' r1 = Some CACHE_CONTROL_PENDING"
    using handleImage_pending_reachable [of cfg w1 i1 req1 ora1 obj] by simp
  then show "\<exists>r1. handleImage ora1 i1 req1 (st w1)
                  = Some (r1, Some (Generate i1 (data obj) (url req1) r1))
               \<and> getHeader ''X-Alt-Text'' r1 = Some PENDING_ALT_TEXT
               \<and> getHeader ''Cache-Control'' r1 = Some CACHE_CONTROL_PENDING"
    by blast
next
  assume "AI_QUOTA_bound cfg \<and> lock_get_ok ora \<and> kvGet (AI_QUOTA s) i (now ora) = Some v
       \<and> v \<noteq> []"
  then have "acquireLock cfg ora i s = (False, s)"
    using acquireLock_held [of cfg ora s i v] by simp
  then show "task_step cfg ora (Generate i b k r) s = (Some (Rebuild i k r), s)"
    by simp
qed

text \<open>
  The scenario at the three places: the second reader of an image whose first task waits
  for the model is answered with the pending response and starts a task; that task, the
  lock being held, goes to its last step at once and writes the pending response; and
  the same last step writes the pending response also where the stored description
  holds a line feed.
\<close>

theorem cache_written_after_generateAltTextOnce_witness:
  "reachable demo_cfg demo_w3 \<and> UUID_RE_test demo_id \<and> req_method demo_read = ''GET''
   \<and> cache (st demo_w3) (url demo_read) = None \<and> r2_get_ok demo_ok
   \<and> IMAGES (st demo_w3) demo_id = Some demo_object
   \<and> storedAltText demo_ok (st demo_w3) demo_id = []
   \<and> handleImage demo_ok demo_id demo_read (st demo_w3)
       = Some (demo_pending, Some (Generate demo_id [1, 2, 3] (url demo_read) demo_pending))
   \<and> getHeader ''X-Alt-Text'' demo_pending = Some PENDING_ALT_TEXT
   \<and> AI_QUOTA_bound demo_cfg \<and> lock_get_ok demo_ok
   \<and> kvGet (AI_QUOTA demo_s3) demo_id (now demo_ok) = Some (js ''1'') \<and> js ''1'' \<noteq> []
   \<and> task_step demo_cfg demo_ok (Generate demo_id [1, 2, 3] (url demo_read) demo_pending) demo_s3
       = (Some (Rebuild demo_id (url demo_read) demo_pending), demo_s3)
   \<and> cache (snd (task_step demo_cfg demo_ok (Rebuild demo_id (url demo_read) demo_pending)
        demo_s3)) (url demo_read) = Some demo_pending
   \<and> storedAltText demo_ok (st demo_u4) demo_id = demo_two_lines
   \<and> enriched demo_pending demo_two_lines = None
   \<and> cache (snd (task_step demo_cfg demo_ok (Rebuild demo_id (url demo_read) demo_pending)
        (st demo_u4))) (url demo_read) = Some demo_pending"
proof -
  have miss: "cache (st demo_w3) (url demo_read) = None"
    by (simp add: demo_w3_eq demo_s3_def demo_s1_def)
  have img: "IMAGES (st demo_w3) demo_id = Some demo_object"
    by (simp add: demo_w3_eq demo_s3_def demo_s1_def)
  have alt: "storedAltText demo_ok (st demo_w3) demo_id = []"
    by (simp add: storedAltText_def demo_ok_fields demo_w3_eq demo_s3_def demo_s1_def
        selectById_def demo_row_def)
  have alt3: "storedAltText demo_ok demo_s3 demo_id = []"
    using alt by (simp add: demo_w3_eq)
  have lock: "kvGet (AI_QUOTA demo_s3) demo_id (now demo_ok) = Some (js ''1'')"
    by (simp add: kvGet_def demo_s3_def demo_ok_fields)
  have h: "handleImage demo_ok demo_id demo_read (st demo_w3)
       = Some (demo_pending, Some (Generate demo_id [1, 2, 3] (url demo_read) demo_pending))"
    by (simp add: demo_w3_eq handleImage_demo_s3)
  note c = cache_written_after_generateAltTextOnce [of demo_cfg demo_ok demo_read initial
      demo_id "[1, 2, 3]" "url demo_read" demo_pending demo_s3 demo_two_lines undefined
      demo_w3 demo_id demo_read demo_ok demo_object "js ''1''"]
  note d = cache_written_after_generateAltTextOnce [of demo_cfg demo_ok demo_read initial
      demo_id "[1, 2, 3]" "url demo_read" demo_pending "st demo_u4" demo_two_lines undefined
      demo_w3 demo_id demo_read demo_ok demo_object "js ''1''"]
  from c demo_two_lines_refused(2) have refused: "enriched demo_pending demo_two_lines = None"
    by simp
  from c demo_cfg_fields(2) demo_ok_fields(4) lock js_ne(2)
  have held: "task_step demo_cfg demo_ok
        (Generate demo_id [1, 2, 3] (url demo_read) demo_pending) demo_s3
       = (Some (Rebuild demo_id (url demo_read) demo_pending), demo_s3)"
    by simp
  from c alt3
  have put: "cache (snd (task_step demo_cfg demo_ok
        (Rebuild demo_id (url demo_read) demo_pending) demo_s3)) (url demo_read)
      = Some demo_pending"
    by simp
  from d storedAltText_demo_u4 demo_two_lines_refused(1) refused
  have put2: "cache (snd (task_step demo_cfg demo_ok
        (Rebuild demo_id (url demo_read) demo_pending) (st demo_u4))) (url demo_read)
      = Some demo_pending"
    by simp
  have x: "getHeader ''X-Alt-Text'' demo_pending = Some PENDING_ALT_TEXT"
    by (simp add: demo_pending_def getHeader_def)
  from reachable_demo(3) UUID_demo demo_read_fields(1) miss demo_ok_fields(4,9) img alt h x
    demo_cfg_fields(2) lock js_ne(2) held put storedAltText_demo_u4 refused put2
  show ?thesis by simp
qed


section \<open>Reads of an image that has a description\<close>

lemma demo_d1_down_fields:
  "now demo_d1_down = 1000000" "rl_get_ok demo_d1_down" "rl_put_ok demo_d1_down"
  "lock_get_ok demo_d1_down" "lock_put_ok demo_d1_down" "\<not> d1_select_ok demo_d1_down"
  "r2_get_ok demo_d1_down"
  by (simp_all add: demo_d1_down_def demo_ok_def)

lemma demo_w6_eq: "st demo_w6 = demo_s4" "waitUntil demo_w6 = []"
  "RATE_LIMIT demo_w6 = [(js ''203.0.113.7'', 0) \<mapsto> (2, 76000)]"
proof -
  show "st demo_w6 = demo_s4"
    by (simp add: demo_w6_def evict_def demo_w5_eq demo_s5_def demo_read_fields
        demo_s4_def demo_s3_def demo_s1_def)
  show "waitUntil demo_w6 = []"
    by (simp add: demo_w6_def evict_def demo_w5_eq)
  have "RATE_LIMIT demo_w6 = RATE_LIMIT demo_w2"
    by (simp add: demo_w6_def evict_def demo_w5_def demo_w4_def demo_w3_def
        RATE_LIMIT_background)
  then show "RATE_LIMIT demo_w6 = [(js ''203.0.113.7'', 0) \<mapsto> (2, 76000)]"
    by (simp add: demo_w2_eq)
qed

lemma demo_w7_eq:
  "st demo_w7 = demo_s4"
  "waitUntil demo_w7 = [Generate demo_id [1, 2, 3] (url demo_read) demo_pending]"
proof -
  have miss: "cache demo_s4 (url demo_read) = None"
    by (simp add: demo_s4_def demo_s3_def demo_s1_def)
  have img: "IMAGES demo_s4 demo_id = Some demo_object"
    by (simp add: demo_s4_def demo_s3_def demo_s1_def)
  have alt: "storedAltText demo_d1_down demo_s4 demo_id = []"
    by (simp add: storedAltText_def demo_d1_down_fields)
  have h: "handleImage demo_d1_down demo_id demo_read demo_s4
      = Some (demo_pending, Some (Generate demo_id [1, 2, 3] (url demo_read) demo_pending))"
    using handleImage_pending [OF demo_read_fields(1) miss demo_d1_down_fields(7) img alt,
        of demo_pending]
    by (simp add: demo_object_def imageResponse_demo)
  show "st demo_w7 = demo_s4"
    "waitUntil demo_w7 = [Generate demo_id [1, 2, 3] (url demo_read) demo_pending]"
    by (simp_all add: demo_w7_def snd_fetch router_def route_def rateLimit_eval
        demo_read_fields(1,2,4)
        demo_d1_down_fields demo_cfg_fields pathname_demo_read_neq startsWith_demo
        imageIdOf_demo UUID_demo demo_w6_eq h)
qed

lemma demo_w8_eq:
  "events (st demo_w8) = events demo_s4 @ [AiRun demo_id [1, 2, 3]]"
  "waitUntil demo_w8 = [Inferring demo_id [1, 2, 3] (url demo_read) demo_pending]"
  by (simp_all add: demo_w8_def background_def demo_w7_eq acquireLock_def callModel_def
      demo_cfg_fields demo_d1_down_fields kvGet_def kvPut_def demo_s4_def demo_s3_def)

lemma reachable_demo_later: "reachable demo_cfg demo_w6" "reachable demo_cfg demo_w8"
  unfolding demo_w8_def demo_w7_def demo_w6_def
  by (intro reachable.intros reachable_demo_w5)+

text \<open>
  Claim C2, as the specification states it: in every reachable state in which the
  description of an image is stored, a read of that image never calls the model. It
  fails when the D1 read of the request is rejected. In the scenario the description
  \<^verbatim>\<open>A cat\<close> is stored; later the cache entry is gone and the dedupe lock has run out;
  a read whose D1 read fails starts \<^verbatim>\<open>generateAndCache\<close>, and its first step calls
  the model a second time.
\<close>

theorem described_image_reinferred_when_lookup_fails:
  "reachable demo_cfg demo_w6
   \<and> selectById (DB (st demo_w6)) demo_id
       = Some (demo_row\<lparr>alt_text := Some (js ''A cat''), updated_at := Some 1000\<rparr>)
   \<and> demo_w8 = background demo_cfg demo_d1_down 0
                  (snd (router demo_cfg demo_d1_down demo_read demo_w6))
   \<and> events (st demo_w6)
       = [Fetch (js ''https://example.com/a.png''), R2Put demo_id,
          D1Insert demo_id (js ''https://example.com/a.png''), AiRun demo_id [1, 2, 3],
          D1Upsert demo_id (js ''A cat'')]
   \<and> events (st demo_w8) = events (st demo_w6) @ [AiRun demo_id [1, 2, 3]]"
proof -
  have "selectById (DB (st demo_w6)) demo_id
       = Some (demo_row\<lparr>alt_text := Some (js ''A cat''), updated_at := Some 1000\<rparr>)"
    by (simp add: demo_w6_eq demo_s4_def selectById_def demo_row_def)
  moreover have "events (st demo_w6)
       = [Fetch (js ''https://example.com/a.png''), R2Put demo_id,
          D1Insert demo_id (js ''https://example.com/a.png''), AiRun demo_id [1, 2, 3],
          D1Upsert demo_id (js ''A cat'')]"
    by (simp add: demo_w6_eq demo_s4_def demo_s3_def demo_s1_def)
  ultimately show ?thesis
    using reachable_demo_later(1) demo_w8_eq(1)
    by (simp add: demo_w6_eq demo_w8_def demo_w7_def snd_fetch)
qed

lemma run_task_CachePut:
  "events (snd (run_task cfg oras (CachePut k r) s)) = events s
   \<and> DB (snd (run_task cfg oras (CachePut k r) s)) = DB s"
  by (cases oras) simp_all

lemma serve_described:
  assumes "selectById (DB s) i = Some row" and "alt_text row = Some a" and "a \<noteq> []"
    and "d1_select_ok ora"
  shows "events (snd (serve cfg ora oras i req s)) = events s
    \<and> DB (snd (serve cfg ora oras i req s)) = DB s"
proof -
  from assms have alt: "storedAltText ora s i \<noteq> []" by (simp add: storedAltText_def)
  show ?thesis
  proof (cases "handleImage ora i req s")
    case None
    then show ?thesis by (simp add: serve_def)
  next
    case (Some x)
    then obtain r t where h: "handleImage ora i req s = Some (r, t)" by (cases x) simp
    then have "t = None \<or> (\<exists>k. t = Some (CachePut k r))"
      using alt by (auto simp: handleImage_def Let_def split: if_splits option.splits)
    with h show ?thesis by (auto simp: serve_def run_task_CachePut)
  qed
qed

lemma serveAll_described:
  assumes "selectById (DB s) i = Some row" and "alt_text row = Some a" and "a \<noteq> []"
    and "\<forall>(ora, oras, req) \<in> set reads. d1_select_ok ora"
  shows "events (serveAll cfg reads i s) = events s \<and> DB (serveAll cfg reads i s) = DB s"
  using assms
proof (induction reads arbitrary: s)
  case Nil
  show ?case by simp
next
  case (Cons x reads)
  obtain ora oras req where x: "x = (ora, oras, req)" by (cases x)
  let ?s' = "snd (serve cfg ora oras i req s)"
  from Cons.prems x have ok: "d1_select_ok ora" by simp
  note one = serve_described [OF Cons.prems(1-3) ok, of cfg oras req]
  from one Cons.prems(1) have "selectById (DB ?s') i = Some row" by simp
  from Cons.IH [OF this Cons.prems(2,3)] Cons.prems(4) one x show ?case by simp
qed

text \<open>
  Claim C2, amended: in every reachable state in which a description of the image is
  stored, reads of that image whose D1 read succeeds, each followed by the task it
  started, any number of them, make no call at all (so none to the model) and leave the
  table as it is. A read whose D1 read is rejected takes the description for absent and
  starts \<^verbatim>\<open>generateAndCache\<close>.
\<close>

theorem described_image_not_reinferred:
  assumes "reachable cfg w" and "selectById (DB (st w)) i = Some row"
    and "alt_text row \<noteq> None"
    and "\<forall>(ora, oras, req) \<in> set reads. d1_select_ok ora"
  shows "events (serveAll cfg reads i (st w)) = events (st w)
    \<and> DB (serveAll cfg reads i (st w)) = DB (st w)"
proof -
  from assms(3) obtain a where a: "alt_text row = Some a" by blast
  from assms(2) have "row \<in> set (DB (st w))"
    by (auto simp: selectById_def find_Some_iff)
  with sanitisedRows_reachable [OF assms(1)] a have "a \<noteq> []"
    by (force simp: sanitisedRows_def)
  from serveAll_described [OF assms(2) a this assms(4)] show ?thesis .
qed

theorem described_image_not_reinferred_witness:
  "reachable demo_cfg demo_w4
   \<and> selectById (DB (st demo_w4)) demo_id
       = Some (demo_row\<lparr>alt_text := Some (js ''A cat''), updated_at := Some 1000\<rparr>)
   \<and> alt_text (demo_row\<lparr>alt_text := Some (js ''A cat''), updated_at := Some 1000\<rparr>) \<noteq> None
   \<and> d1_select_ok demo_ok
   \<and> events (serveAll demo_cfg [(demo_ok, [demo_ok], demo_read), (demo_ok, [demo_ok], demo_read)]
        demo_id (st demo_w4)) = events (st demo_w4)
   \<and> DB (serveAll demo_cfg [(demo_ok, [demo_ok], demo_read), (demo_ok, [demo_ok], demo_read)]
        demo_id (st demo_w4)) = DB (st demo_w4)"
proof -
  have h2: "selectById (DB (st demo_w4)) demo_id
       = Some (demo_row\<lparr>alt_text := Some (js ''A cat''), updated_at := Some 1000\<rparr>)"
    by (simp add: demo_w4_eq demo_s4_def selectById_def demo_row_def)
  have h3: "alt_text (demo_row\<lparr>alt_text := Some (js ''A cat''), updated_at := Some 1000\<rparr>) \<noteq> None"
    by simp
  have h4: "\<forall>(ora, oras, req)
      \<in> set [(demo_ok, [demo_ok], demo_read), (demo_ok, [demo_ok], demo_read)]. d1_select_ok ora"
    by (simp add: demo_ok_fields)
  from described_image_not_reinferred [OF reachable_demo(4) h2 h3 h4]
    reachable_demo(4) h2 h3 demo_ok_fields(6)
  show ?thesis by simp
qed


section \<open>Rate limiting\<close>

lemma RATE_LIMIT_route: "RATE_LIMIT (snd (route cfg ora req w)) = RATE_LIMIT w"
  by (simp add: route_def split: prod.split option.split)

lemma RATE_LIMIT_router:
  "RATE_LIMIT (snd (router cfg ora req w))
     = (if req_method req = ''OPTIONS'' \<or> pathname req = js ''/health'' then RATE_LIMIT w
        else snd (rateLimit cfg ora req (RATE_LIMIT w)))"
  by (cases "rateLimit cfg ora req (RATE_LIMIT w)")
    (auto simp: router_def RATE_LIMIT_route split: option.split)

lemma isApiPath_not_health: "isApiPath p \<Longrightarrow> p \<noteq> js ''/health''"
  by (auto simp: isApiPath_def startsWith_def js_def)

lemma window_bounds:
  "t div 60000 = win \<Longrightarrow> t < (win + 1) * 60000 \<and> (win + 1) * 60000 \<le> t + 75 * 1000"
  for t win :: nat
  by auto

lemma rateLimit_counted:
  assumes "RATE_LIMIT_bound cfg" and "inWindow ip win (ora, req)" and "counterIs kv ip win c"
  shows "rateLimit cfg ora req kv
      = (if 10 \<le> c then (Some tooManyRequests, kv)
         else (None, kvPut kv (ip, win) (c + 1) (now ora) RATE_LIMIT_TTL))"
proof -
  from assms(2) have w: "now ora div 60000 = win" by (simp add: inWindow_def)
  note b = window_bounds [OF w]
  from assms(3) b have "(case kvGet kv (ip, win) (now ora) of None \<Rightarrow> 0 | Some n \<Rightarrow> n) = c"
    by (auto simp: counterIs_def kvGet_def split: option.splits)
  with assms(1,2) w show ?thesis
    by (simp add: rateLimit_def inWindow_def Let_def RATE_LIMIT_MAX_def)
qed

lemma counterIs_step:
  assumes "RATE_LIMIT_bound cfg" and "inWindow ip win (ora, req)" and "counterIs kv ip win c"
    and "c \<le> 10"
  shows "counterIs (snd (rateLimit cfg ora req kv)) ip win (min (c + 1) 10)"
proof -
  from assms(2) have w: "now ora div 60000 = win" by (simp add: inWindow_def)
  note b = window_bounds [OF w]
  show ?thesis
    unfolding rateLimit_counted [OF assms(1-3)]
    using assms(3,4) b
    by (auto simp: counterIs_def kvPut_def RATE_LIMIT_TTL_def split: option.splits)
qed

text \<open>A request that is not counted for \<open>(ip, win)\<close> leaves that counter as it is.\<close>

lemma rateLimit_other:
  assumes "\<not> inWindow ip win (ora, req)" and "req_method req \<noteq> ''OPTIONS''"
  shows "snd (rateLimit cfg ora req kv) (ip, win) = kv (ip, win)"
  using assms by (auto simp: rateLimit_def inWindow_def Let_def kvPut_def)

lemma router_other:
  assumes "\<not> inWindow ip win (ora, req)"
  shows "RATE_LIMIT (snd (router cfg ora req w)) (ip, win) = RATE_LIMIT w (ip, win)"
  using assms rateLimit_other [of ip win ora req cfg "RATE_LIMIT w"]
  by (simp add: RATE_LIMIT_router)

lemma perform_other:
  assumes "\<not> counted ip win x"
  shows "RATE_LIMIT (snd (perform cfg x w)) (ip, win) = RATE_LIMIT w (ip, win)"
proof (cases x)
  case (Request ora req)
  with assms show ?thesis by (simp only: snd_perform snd_fetch) (simp add: router_other)
next
  case (Background ora i)
  then show ?thesis by (simp add: RATE_LIMIT_background)
next
  case (Evict k)
  then show ?thesis by (simp add: evict_def)
qed

lemma counterIs_perform:
  assumes "RATE_LIMIT_bound cfg" and "counterIs (RATE_LIMIT w) ip win c" and "c \<le> 10"
  shows "counterIs (RATE_LIMIT (snd (perform cfg x w))) ip win
           (min (c + (if counted ip win x then 1 else 0)) 10)"
proof (cases "counted ip win x")
  case False
  from perform_other [OF False, of cfg w]
  have "counterIs (RATE_LIMIT (snd (perform cfg x w))) ip win c = counterIs (RATE_LIMIT w) ip win c"
    by (simp add: counterIs_def)
  with assms(2,3) False show ?thesis by simp
next
  case True
  then obtain ora req where x: "x = Request ora req" and inw: "inWindow ip win (ora, req)"
    by (cases x) simp_all
  from inw have "req_method req \<noteq> ''OPTIONS''" "pathname req \<noteq> js ''/health''"
    by (simp_all add: inWindow_def isApiPath_not_health)
  then have "RATE_LIMIT (snd (perform cfg x w)) = snd (rateLimit cfg ora req (RATE_LIMIT w))"
    unfolding x by (simp only: snd_perform snd_fetch) (simp add: RATE_LIMIT_router)
  with counterIs_step [OF assms(1) inw assms(2,3)] True show ?thesis by simp
qed

lemma run_Cons:
  "run cfg (x # rest) w
     = (fst (perform cfg x w) # fst (run cfg rest (snd (perform cfg x w))),
        snd (run cfg rest (snd (perform cfg x w))))"
  by (simp split: prod.split)

lemma counterIs_run:
  assumes "RATE_LIMIT_bound cfg"
    and "counterIs (RATE_LIMIT w) ip win c" and "c \<le> 10"
  shows "counterIs (RATE_LIMIT (snd (run cfg xs w))) ip win
           (min (c + length (filter (counted ip win) xs)) 10)"
  using assms(2,3)
proof (induction xs arbitrary: w c)
  case Nil
  then show ?case by simp
next
  case (Cons x xs)
  let ?w' = "snd (perform cfg x w)"
  let ?c' = "min (c + (if counted ip win x then 1 else 0)) 10"
  from counterIs_perform [OF assms(1) Cons.prems]
  have c': "counterIs (RATE_LIMIT ?w') ip win ?c'" .
  have "counterIs (RATE_LIMIT (snd (run cfg xs ?w'))) ip win
      (min (?c' + length (filter (counted ip win) xs)) 10)"
    by (rule Cons.IH [OF c']) simp
  moreover have "min (?c' + length (filter (counted ip win) xs)) 10
      = min (c + length (filter (counted ip win) (x # xs))) 10"
    by (cases "counted ip win x") (simp_all add: min_def)
  moreover have "snd (run cfg (x # xs) w) = snd (run cfg xs ?w')"
    by (simp add: run_Cons del: run.simps(2))
  ultimately show ?case by simp
qed

lemma run_nth:
  "k < length xs \<Longrightarrow>
   fst (run cfg xs w) ! k = fst (perform cfg (xs ! k) (snd (run cfg (take k xs) w)))"
proof (induction xs arbitrary: k w)
  case Nil
  then show ?case by simp
next
  case (Cons x xs)
  show ?case
  proof (cases k)
    case 0
    then show ?thesis by (simp add: run_Cons del: run.simps(2))
  next
    case (Suc j)
    with Cons.prems have "j < length xs" by simp
    from Cons.IH [OF this, of "snd (perform cfg x w)"] Suc show ?thesis
      by (simp add: run_Cons del: run.simps(2))
  qed
qed

lemma fst_perform:
  "fst (perform cfg (Request ora req) w) = Some (fst (fetch cfg ora req w))"
  by (simp split: prod.split)

lemma fetch_OPTIONS:
  "req_method req = ''OPTIONS'' \<Longrightarrow>
   fetch cfg ora req w = (\<lparr>status = 204, headers = CORS_HEADERS, body = NoBody\<rparr>, w)"
  by (simp add: fetch_def router_def)

lemma router_limited:
  assumes "req_method req \<noteq> ''OPTIONS''" and "pathname req \<noteq> js ''/health''"
    and "rateLimit cfg ora req (RATE_LIMIT w) = (Some r, RATE_LIMIT w)"
  shows "router cfg ora req w = (Some r, w)"
  using assms by (simp add: router_def)

lemma router_passed:
  assumes "req_method req \<noteq> ''OPTIONS''" and "pathname req \<noteq> js ''/health''"
    and "rateLimit cfg ora req (RATE_LIMIT w) = (None, kv)"
  shows "router cfg ora req w = route cfg ora req (w\<lparr>RATE_LIMIT := kv\<rparr>)"
  using assms by (simp add: router_def)

text \<open>
  Claim C10, as stated: every request to an API path is subject to the limit, and the
  eleventh request from one address in one minute is answered with 429. It fails for a
  CORS preflight: \<^verbatim>\<open>router\<close> answers \<^verbatim>\<open>OPTIONS\<close> before it calls \<^verbatim>\<open>rateLimit\<close>.
  After an upload and nine reads from one address in one minute, the eleventh request
  from that address in that minute, an \<^verbatim>\<open>OPTIONS\<close> on \<^verbatim>\<open>/upload\<close>, is answered with
  204.
\<close>

theorem preflight_not_rate_limited:
  "isApiPath (pathname demo_preflight)
   \<and> clientIp demo_preflight = clientIp demo_read \<and> clientIp demo_upload = clientIp demo_read
   \<and> map_option status (fst (run demo_cfg
        (Request demo_ok demo_upload # replicate 9 (Request demo_ok demo_read)
           @ [Request demo_ok demo_preflight])
        initial) ! 10) = Some 204"
proof -
  have "fst (run demo_cfg
        (Request demo_ok demo_upload # replicate 9 (Request demo_ok demo_read)
           @ [Request demo_ok demo_preflight])
        initial) ! 10
      = fst (perform demo_cfg (Request demo_ok demo_preflight)
          (snd (run demo_cfg (take 10 (Request demo_ok demo_upload
              # replicate 9 (Request demo_ok demo_read)
              @ [Request demo_ok demo_preflight])) initial)))"
    by (subst run_nth) (simp_all add: nth_append)
  moreover have "req_method demo_preflight = ''OPTIONS''"
    by (simp add: demo_preflight_def)
  moreover have "isApiPath (pathname demo_preflight)"
    "clientIp demo_preflight = clientIp demo_read" "clientIp demo_upload = clientIp demo_read"
    by (simp_all add: demo_preflight_def demo_upload_def demo_read_def isApiPath_def
        clientIp_def)
  ultimately show ?thesis
    by (simp only: fst_perform fetch_OPTIONS) simp
qed

text \<open>
  Claim C10, amended, for requests handled one after the other (no request comes
  between the read and the write of the counter that \<^verbatim>\<open>rateLimit\<close> makes for another)
  on a store that is one consistent copy.
  A CORS preflight is answered with 204 before the limiter, whatever its path, and
  changes nothing, so it is neither counted nor rejected. Every other request to an API
  path passes the limiter before any handler. With the store bound and its read
  answering, a request that finds the counter of its address and minute at ten or more
  is answered with 429 and nothing changes. The limiter fails open: with the store
  unbound or its read failing, and also with its write failing while the counter is
  below ten, the request goes to its handler and nothing is counted. And in every
  execution that starts without a counter for an address and a minute, whatever else
  happens in between (requests of other addresses or minutes, preflights, other paths,
  steps of background tasks, cache evictions, failing calls), a counted request for that
  address and minute, one whose read and write of the counter both answer, is answered
  with 429 and changes nothing if ten or more counted requests for them came before it,
  and otherwise goes to its handler with the counter set to one more than their number.
\<close>

theorem rate_limit_per_address_and_minute:
  "status tooManyRequests = 429
   \<and> (req_method req = ''OPTIONS'' \<longrightarrow>
         router cfg ora req w = (Some \<lparr>status = 204, headers = CORS_HEADERS, body = NoBody\<rparr>, w))
   \<and> (req_method req \<noteq> ''OPTIONS'' \<and> isApiPath (pathname req) \<and> RATE_LIMIT_bound cfg
       \<and> rl_get_ok ora
       \<and> kvGet (RATE_LIMIT w) (clientIp req, now ora div 60000) (now ora) = Some n
       \<and> RATE_LIMIT_MAX \<le> n \<longrightarrow>
         router cfg ora req w = (Some tooManyRequests, w)
         \<and> fetch cfg ora req w = (tooManyRequests, w))
   \<and> (req_method req \<noteq> ''OPTIONS'' \<and> isApiPath (pathname req)
       \<and> (\<not> RATE_LIMIT_bound cfg \<or> \<not> rl_get_ok ora) \<longrightarrow>
         router cfg ora req w = route cfg ora req w)
   \<and> (req_method req \<noteq> ''OPTIONS'' \<and> isApiPath (pathname req) \<and> \<not> rl_put_ok ora
       \<and> (case kvGet (RATE_LIMIT w) (clientIp req, now ora div 60000) (now ora) of
             None \<Rightarrow> 0 | Some m \<Rightarrow> m) < RATE_LIMIT_MAX \<longrightarrow>
         router cfg ora req w = route cfg ora req w)
   \<and> (RATE_LIMIT_bound cfg \<and> RATE_LIMIT w' (ip, win) = None \<and> k < length xs
       \<and> xs ! k = Request ora' req' \<and> inWindow ip win (ora', req') \<longrightarrow>
         (RATE_LIMIT_MAX \<le> length (filter (counted ip win) (take k xs)) \<longrightarrow>
            fst (run cfg xs w') ! k = Some tooManyRequests
            \<and> fetch cfg ora' req' (snd (run cfg (take k xs) w'))
                = (tooManyRequests, snd (run cfg (take k xs) w')))
         \<and> (length (filter (counted ip win) (take k xs)) < RATE_LIMIT_MAX \<longrightarrow>
              router cfg ora' req' (snd (run cfg (take k xs) w'))
                = route cfg ora' req'
                    ((snd (run cfg (take k xs) w'))
                       \<lparr>RATE_LIMIT :=
                          kvPut (RATE_LIMIT (snd (run cfg (take k xs) w'))) (ip, win)
                            (length (filter (counted ip win) (take k xs)) + 1)
                            (now ora') RATE_LIMIT_TTL\<rparr>)))"
proof (intro conjI impI)
  show "status tooManyRequests = 429" by (simp add: tooManyRequests_def)
next
  assume "req_method req = ''OPTIONS''"
  then show "router cfg ora req w
      = (Some \<lparr>status = 204, headers = CORS_HEADERS, body = NoBody\<rparr>, w)"
    by (simp add: router_def)
next
  assume a: "req_method req \<noteq> ''OPTIONS'' \<and> isApiPath (pathname req) \<and> RATE_LIMIT_bound cfg
       \<and> rl_get_ok ora
       \<and> kvGet (RATE_LIMIT w) (clientIp req, now ora div 60000) (now ora) = Some n
       \<and> RATE_LIMIT_MAX \<le> n"
  then have "rateLimit cfg ora req (RATE_LIMIT w) = (Some tooManyRequests, RATE_LIMIT w)"
    by (simp add: rateLimit_def Let_def)
  with a show r: "router cfg ora req w = (Some tooManyRequests, w)"
    by (simp add: router_def isApiPath_not_health)
  then show "fetch cfg ora req w = (tooManyRequests, w)"
    by (simp add: fetch_def)
next
  assume a: "req_method req \<noteq> ''OPTIONS'' \<and> isApiPath (pathname req)
       \<and> (\<not> RATE_LIMIT_bound cfg \<or> \<not> rl_get_ok ora)"
  then have "rateLimit cfg ora req (RATE_LIMIT w) = (None, RATE_LIMIT w)"
    by (auto simp: rateLimit_def Let_def)
  with a show "router cfg ora req w = route cfg ora req w"
    by (simp add: router_def isApiPath_not_health)
next
  assume a: "req_method req \<noteq> ''OPTIONS'' \<and> isApiPath (pathname req) \<and> \<not> rl_put_ok ora
       \<and> (case kvGet (RATE_LIMIT w) (clientIp req, now ora div 60000) (now ora) of
             None \<Rightarrow> 0 | Some m \<Rightarrow> m) < RATE_LIMIT_MAX"
  then have "rateLimit cfg ora req (RATE_LIMIT w) = (None, RATE_LIMIT w)"
    by (auto simp: rateLimit_def Let_def)
  with a show "router cfg ora req w = route cfg ora req w"
    by (simp add: router_def isApiPath_not_health)
next
  assume a: "RATE_LIMIT_bound cfg \<and> RATE_LIMIT w' (ip, win) = None \<and> k < length xs
       \<and> xs ! k = Request ora' req' \<and> inWindow ip win (ora', req')"
  let ?wk = "snd (run cfg (take k xs) w')"
  let ?n = "length (filter (counted ip win) (take k xs))"
  from a have bound: "RATE_LIMIT_bound cfg" and inw: "inWindow ip win (ora', req')"
    and k: "k < length xs" and x: "xs ! k = Request ora' req'"
    by simp_all
  from a have c0: "counterIs (RATE_LIMIT w') ip win 0" by (simp add: counterIs_def)
  from counterIs_run [OF bound c0, of "take k xs"]
  have ck: "counterIs (RATE_LIMIT ?wk) ip win (min ?n 10)" by simp
  note rl = rateLimit_counted [OF bound inw ck]
  from inw have nopt: "req_method req' \<noteq> ''OPTIONS''" "pathname req' \<noteq> js ''/health''"
    by (simp_all add: inWindow_def isApiPath_not_health)
  {
    assume "RATE_LIMIT_MAX \<le> ?n"
    with rl have "rateLimit cfg ora' req' (RATE_LIMIT ?wk) = (Some tooManyRequests, RATE_LIMIT ?wk)"
      by (simp add: RATE_LIMIT_MAX_def)
    from router_limited [OF nopt this]
    show f: "fetch cfg ora' req' ?wk = (tooManyRequests, ?wk)"
      by (simp add: fetch_def)
    from run_nth [OF k, of cfg w'] x f
    show "fst (run cfg xs w') ! k = Some tooManyRequests"
      by simp
  }
  {
    assume "?n < RATE_LIMIT_MAX"
    with rl have "rateLimit cfg ora' req' (RATE_LIMIT ?wk)
        = (None, kvPut (RATE_LIMIT ?wk) (ip, win) (?n + 1) (now ora') RATE_LIMIT_TTL)"
      by (simp add: RATE_LIMIT_MAX_def)
    from router_passed [OF nopt this]
    show "router cfg ora' req' ?wk
        = route cfg ora' req'
            (?wk\<lparr>RATE_LIMIT :=
                   kvPut (RATE_LIMIT ?wk) (ip, win) (?n + 1) (now ora') RATE_LIMIT_TTL\<rparr>)" .
  }
qed

text \<open>
  The scenario: a preflight in the state in which the address has used up its ten
  requests; a read in that state; reads with the read or the write of the store failing;
  and an execution of ten reads, a preflight, a cache eviction and one more read, all
  from one address in one minute.
\<close>

theorem rate_limit_per_address_and_minute_witness:
  "req_method demo_preflight = ''OPTIONS''
   \<and> router demo_cfg demo_ok demo_preflight demo_w_limit
       = (Some \<lparr>status = 204, headers = CORS_HEADERS, body = NoBody\<rparr>, demo_w_limit)
   \<and> req_method demo_read \<noteq> ''OPTIONS'' \<and> isApiPath (pathname demo_read)
   \<and> RATE_LIMIT_bound demo_cfg \<and> rl_get_ok demo_ok
   \<and> kvGet (RATE_LIMIT demo_w_limit) (clientIp demo_read, now demo_ok div 60000) (now demo_ok)
       = Some 10
   \<and> RATE_LIMIT_MAX \<le> 10
   \<and> fetch demo_cfg demo_ok demo_read demo_w_limit = (tooManyRequests, demo_w_limit)
   \<and> \<not> rl_get_ok demo_kv_down
   \<and> router demo_cfg demo_kv_down demo_read demo_w_limit
       = route demo_cfg demo_kv_down demo_read demo_w_limit
   \<and> \<not> rl_put_ok demo_kv_put_down
   \<and> kvGet (RATE_LIMIT demo_w1) (clientIp demo_read, now demo_kv_put_down div 60000)
        (now demo_kv_put_down) = Some 1
   \<and> router demo_cfg demo_kv_put_down demo_read demo_w1
       = route demo_cfg demo_kv_put_down demo_read demo_w1
   \<and> inWindow (js ''203.0.113.7'') 0 (demo_ok, demo_read)
   \<and> RATE_LIMIT initial (js ''203.0.113.7'', 0) = None
   \<and> length (filter (counted (js ''203.0.113.7'') 0)
        (take 12 (replicate 10 (Request demo_ok demo_read)
           @ [Request demo_ok demo_preflight, Evict (url demo_read),
              Request demo_ok demo_read]))) = 10
   \<and> fst (run demo_cfg
        (replicate 10 (Request demo_ok demo_read)
           @ [Request demo_ok demo_preflight, Evict (url demo_read), Request demo_ok demo_read])
        initial) ! 12 = Some tooManyRequests
   \<and> router demo_cfg demo_ok demo_read
        (snd (run demo_cfg (replicate 9 (Request demo_ok demo_read)) initial))
       = route demo_cfg demo_ok demo_read
           ((snd (run demo_cfg (replicate 9 (Request demo_ok demo_read)) initial))
              \<lparr>RATE_LIMIT :=
                 kvPut (RATE_LIMIT (snd (run demo_cfg (replicate 9 (Request demo_ok demo_read))
                          initial)))
                   (js ''203.0.113.7'', 0) 10 (now demo_ok) RATE_LIMIT_TTL\<rparr>)"
proof -
  let ?xs = "replicate 10 (Request demo_ok demo_read)
      @ [Request demo_ok demo_preflight, Evict (url demo_read), Request demo_ok demo_read]"
  have opt: "req_method demo_preflight = ''OPTIONS''" by (simp add: demo_preflight_def)
  have api: "isApiPath (pathname demo_read)"
    by (simp add: isApiPath_def demo_read_fields startsWith_demo)
  have nopt: "req_method demo_read \<noteq> ''OPTIONS''" by (simp add: demo_read_fields)
  have ip: "clientIp demo_read = js ''203.0.113.7''" by (simp add: clientIp_def demo_read_fields)
  have cnt: "kvGet (RATE_LIMIT demo_w_limit) (clientIp demo_read, now demo_ok div 60000)
      (now demo_ok) = Some 10"
    by (simp add: ip demo_ok_fields demo_w_limit_def kvGet_def)
  have mx: "RATE_LIMIT_MAX \<le> 10" by (simp add: RATE_LIMIT_MAX_def)
  have down: "\<not> rl_get_ok demo_kv_down" by (simp add: demo_kv_down_def)
  have pdown: "\<not> rl_put_ok demo_kv_put_down" and pnow: "now demo_kv_put_down = 1000"
    by (simp_all add: demo_kv_put_down_def demo_ok_def)
  have cnt1: "kvGet (RATE_LIMIT demo_w1) (clientIp demo_read, now demo_kv_put_down div 60000)
        (now demo_kv_put_down) = Some 1"
    by (simp add: ip pnow demo_w1_eq kvGet_def)
  have inw: "inWindow (js ''203.0.113.7'') 0 (demo_ok, demo_read)"
    by (simp add: inWindow_def nopt api ip demo_ok_fields)
  have notc: "\<not> counted (js ''203.0.113.7'') 0 (Request demo_ok demo_preflight)"
    by (simp add: inWindow_def opt)
  have none: "RATE_LIMIT initial (js ''203.0.113.7'', 0) = None" by (simp add: initial_def)
  have n12: "length (filter (counted (js ''203.0.113.7'') 0) (take 12 ?xs)) = 10"
    using inw notc by simp
  have n9: "length (filter (counted (js ''203.0.113.7'') 0) (take 9 ?xs)) = 9"
    using inw by simp
  have t9: "take 9 ?xs = replicate 9 (Request demo_ok demo_read)" by simp
  have x12: "?xs ! 12 = Request demo_ok demo_read" by (simp add: nth_append)
  have x9: "?xs ! 9 = Request demo_ok demo_read" by (simp add: nth_append)
  note inst = rate_limit_per_address_and_minute [where cfg = demo_cfg
      and ip = "js ''203.0.113.7''" and win = 0 and w' = initial and xs = ?xs
      and ora' = demo_ok and req' = demo_read]
  have preflight: "router demo_cfg demo_ok demo_preflight demo_w_limit
       = (Some \<lparr>status = 204, headers = CORS_HEADERS, body = NoBody\<rparr>, demo_w_limit)"
    using inst [where req = demo_preflight and ora = demo_ok and w = demo_w_limit and n = 10
        and k = 12] opt
    by simp
  have limited: "fetch demo_cfg demo_ok demo_read demo_w_limit = (tooManyRequests, demo_w_limit)"
    using inst [where req = demo_read and ora = demo_ok and w = demo_w_limit and n = 10
        and k = 12] nopt api demo_cfg_fields(1) demo_ok_fields(2) cnt mx
    by simp
  have failopen: "router demo_cfg demo_kv_down demo_read demo_w_limit
       = route demo_cfg demo_kv_down demo_read demo_w_limit"
    using inst [where req = demo_read and ora = demo_kv_down and w = demo_w_limit and n = 10
        and k = 12] nopt api down
    by simp
  have putfails: "router demo_cfg demo_kv_put_down demo_read demo_w1
       = route demo_cfg demo_kv_put_down demo_read demo_w1"
    using inst [where req = demo_read and ora = demo_kv_put_down and w = demo_w1 and n = 10
        and k = 12] nopt api pdown cnt1
    by (simp add: RATE_LIMIT_MAX_def)
  have later: "fst (run demo_cfg ?xs initial) ! 12 = Some tooManyRequests"
    using inst [where req = demo_read and ora = demo_ok and w = demo_w_limit and n = 10
        and k = 12] demo_cfg_fields(1) none x12 inw n12
    by (simp add: RATE_LIMIT_MAX_def)
  have early: "router demo_cfg demo_ok demo_read
        (snd (run demo_cfg (replicate 9 (Request demo_ok demo_read)) initial))
       = route demo_cfg demo_ok demo_read
           ((snd (run demo_cfg (replicate 9 (Request demo_ok demo_read)) initial))
              \<lparr>RATE_LIMIT :=
                 kvPut (RATE_LIMIT (snd (run demo_cfg (replicate 9 (Request demo_ok demo_read))
                          initial)))
                   (js ''203.0.113.7'', 0) 10 (now demo_ok) RATE_LIMIT_TTL\<rparr>)"
    using inst [where req = demo_read and ora = demo_ok and w = demo_w_limit and n = 10
        and k = 9] demo_cfg_fields(1) none x9 inw n9
    unfolding t9
    by (simp add: RATE_LIMIT_MAX_def)
  from opt preflight nopt api demo_cfg_fields(1) demo_ok_fields(2) cnt mx limited down
    failopen pdown cnt1 putfails inw none n12 later early
  show ?thesis by simp
qed


end
